theory Spec2Isabelle
  imports
    Complex_Main
    "HOL-Library.Monad_Syntax"
    "HOL-Library.Char_ord"
    "HOL-Library.List_Lexorder"
begin

section \<open>The mass-spring simulator of main.js\<close>

text \<open>
  The source file holds two variants of the same script. Their functions
  \<^verbatim>\<open>initializeGrid\<close>, \<^verbatim>\<open>drawEdges\<close>, \<^verbatim>\<open>applySpring\<close>, \<^verbatim>\<open>calculateForces\<close>,
  \<^verbatim>\<open>updatePositions\<close> and \<^verbatim>\<open>updatePosVerlet\<close> agree statement by statement; the second
  variant adds the \<^verbatim>\<open>drag\<close> handler.

  Numbers are modelled as real numbers: every statement below is about exact arithmetic,
  with \<^verbatim>\<open>0.2\<close>, \<^verbatim>\<open>0.016\<close>, \<^verbatim>\<open>0.1\<close> and \<^verbatim>\<open>0.05\<close> read as the decimal fractions they
  denote. Rounding, NaN and the infinities of IEEE doubles are outside the model.

  A two-element array \<^verbatim>\<open>[x, y]\<close> is a pair. The four global grids are lists of rows of
  pairs. The script builds each of them from fresh array literals (or from a JSON round
  trip), so no two grids share a row or a cell, and a write to one grid is invisible in
  the others; the model has the same property because its grids are values.

  A read of \<^verbatim>\<open>g[i][j][c]\<close> outside the grid throws a TypeError in JavaScript (either
  \<^verbatim>\<open>g[i]\<close> or \<^verbatim>\<open>g[i][j]\<close> is \<^verbatim>\<open>undefined\<close>), and so does a write of that form; the
  script never extends an array by writing. A thrown TypeError is the result \<open>None\<close>.

  The grid dimensions are natural numbers. A dimension that is zero gives loops that
  do not run, which is also what a negative dimension gives in the script.
\<close>

subsection \<open>Vectors and grids\<close>

type_synonym vec = "real \<times> real"

type_synonym grid = "vec list list"

definition vadd :: "vec \<Rightarrow> vec \<Rightarrow> vec" where
  "vadd a b = (fst a + fst b, snd a + snd b)"

definition vsub :: "vec \<Rightarrow> vec \<Rightarrow> vec" where
  "vsub a b = (fst a - fst b, snd a - snd b)"

definition vneg :: "vec \<Rightarrow> vec" where
  "vneg a = (- fst a, - snd a)"

definition vscale :: "real \<Rightarrow> vec \<Rightarrow> vec" where
  "vscale c a = (c * fst a, c * snd a)"

text \<open>\<^verbatim>\<open>g[i]\<close>, where a following index will throw if the row is missing.\<close>

definition rowAt :: "grid \<Rightarrow> nat \<Rightarrow> vec list option" where
  "rowAt g i = (if i < length g then Some (g ! i) else None)"

text \<open>\<^verbatim>\<open>row[j]\<close>; \<open>None\<close> is \<^verbatim>\<open>undefined\<close>, and reading a component of it throws.\<close>

definition elemAt :: "vec list \<Rightarrow> nat \<Rightarrow> vec option" where
  "elemAt r j = (if j < length r then Some (r ! j) else None)"

text \<open>Reading the components of \<^verbatim>\<open>g[i][j]\<close>.\<close>

definition cell :: "grid \<Rightarrow> nat \<Rightarrow> nat \<Rightarrow> vec option" where
  "cell g i j = do { r \<leftarrow> rowAt g i; elemAt r j }"

text \<open>The grid with the cell at \<open>(i, j)\<close> replaced.\<close>

definition setCell :: "grid \<Rightarrow> nat \<Rightarrow> nat \<Rightarrow> vec \<Rightarrow> grid" where
  "setCell g i j v = g[i := (g ! i)[j := v]]"

text \<open>
  Writing the components of \<^verbatim>\<open>g[i][j]\<close> in place, the new components computed from the
  old ones by \<open>h\<close>.
\<close>

definition modifyCell :: "grid \<Rightarrow> nat \<Rightarrow> nat \<Rightarrow> (vec \<Rightarrow> vec) \<Rightarrow> grid option" where
  "modifyCell g i j h = do {
     r \<leftarrow> rowAt g i;
     v \<leftarrow> elemAt r j;
     Some (setCell g i j (h v))
   }"

subsection \<open>Global state and constants\<close>

record state =
  rows :: nat
  cols :: nat
  positions :: grid
  velocities :: grid
  forces :: grid
  prevPositions :: grid

definition timeStep :: real where
  "timeStep = 16 / 1000"

definition padding :: real where
  "padding = 50"

definition structuralRestLength :: real where
  "structuralRestLength = 50"

definition structuralK :: real where
  "structuralK = 20"

definition structuralDamping :: real where
  "structuralDamping = 1 / 10"

definition shearRestLength :: real where
  "shearRestLength = structuralRestLength * sqrt 2"

definition shearK :: real where
  "shearK = 7"

definition shearDamping :: real where
  "shearDamping = 5 / 100"

definition mass :: real where
  "mass = 2 / 10"

text \<open>
  The SVG attributes \<^verbatim>\<open>width\<close> and \<^verbatim>\<open>height\<close> and the value of the
  \<^verbatim>\<open>task-select\<close> control come from the page, which is not part of the script: they are
  parameters \<open>width\<close>, \<open>height\<close> and \<open>task\<close> of the functions that read them. The script
  uses the two attributes in arithmetic only, where JavaScript converts them to numbers.
\<close>

subsection \<open>Loops\<close>

text \<open>
  \<^verbatim>\<open>for (let i = 0; i < n; i++) body\<close> is \<open>forEach [0..<n] body\<close>: the body runs on the
  state left by the previous iteration, and a throw ends the loop.
\<close>

fun forEach :: "'a list \<Rightarrow> ('a \<Rightarrow> 's \<Rightarrow> 's option) \<Rightarrow> 's \<Rightarrow> 's option" where
  "forEach [] body s = Some s"
| "forEach (x # xs) body s =
     (case body x s of None \<Rightarrow> None | Some s' \<Rightarrow> forEach xs body s')"

subsection \<open>initializeGrid\<close>

definition initializeGrid :: "real \<Rightarrow> real \<Rightarrow> string \<Rightarrow> nat \<Rightarrow> nat \<Rightarrow> state option" where
  "initializeGrid width height task rows0 cols0 =
    (let rows1 = (if task = ''1'' then 1
                  else if task = ''2'' then 2
                  else if task = ''3'' then 2
                  else if task = ''4'' then 3
                  else rows0);
         cols1 = (if task = ''1'' then 2
                  else if task = ''2'' then 2
                  else if task = ''3'' then 2
                  else if task = ''4'' then 3
                  else cols0);
         xStep = (if cols1 > 1 then (width - 2 * padding) / (real cols1 - 1) else 0);
         yStep = (if rows1 > 1 then (height - 2 * padding) / (real rows1 - 1) else 0);
         yStart = height / 2 - (real rows1 - 1) * yStep / 2;
         positions0 = map (\<lambda>i. map (\<lambda>j. (padding + real j * xStep, yStart + real i * yStep))
                                  [0..<cols1]) [0..<rows1];
         velocities0 = map (\<lambda>i. map (\<lambda>j. (0, 0)) [0..<cols1]) [0..<rows1];
         forces0 = map (\<lambda>i. map (\<lambda>j. (0, 0)) [0..<cols1]) [0..<rows1];
         prevPositions0 = positions0
     in do {
       positions1 \<leftarrow> (if task = ''1''
                       then modifyCell positions0 0 1 (\<lambda>p. (fst p + 20, snd p))
                       else Some positions0);
       positions2 \<leftarrow> (if task = ''2''
                       then modifyCell positions1 0 1 (\<lambda>p. (fst p, snd p - 30))
                       else Some positions1);
       positions3 \<leftarrow> (if task = ''3''
                       then modifyCell positions2 0 1 (\<lambda>p. (fst p, snd p - 30))
                       else Some positions2);
       positions4 \<leftarrow> (if task = ''4''
                       then modifyCell positions3 1 1 (\<lambda>p. (fst p, snd p - 40))
                       else Some positions3);
       positions5 \<leftarrow> (if task = ''5''
                       then modifyCell positions4 0 (cols1 div 2) (\<lambda>p. (fst p, snd p - 40))
                       else Some positions4);
       Some \<lparr> rows = rows1, cols = cols1, positions = positions5,
              velocities = velocities0, forces = forces0,
              prevPositions = prevPositions0 \<rparr>
     })"

subsection \<open>drawEdges\<close>

text \<open>
  The list \<^verbatim>\<open>edges\<close> that \<^verbatim>\<open>drawEdges\<close> hands to the renderer. Each entry of the
  script's list is a pair of references to cells of \<^verbatim>\<open>positions\<close>; a reference is
  represented by the index of its cell.
\<close>

type_synonym edge = "(nat \<times> nat) \<times> (nat \<times> nat)"

definition drawEdges :: "string \<Rightarrow> nat \<Rightarrow> nat \<Rightarrow> edge list" where
  "drawEdges task r c =
     concat (map (\<lambda>i. concat (map (\<lambda>j.
         (if j < c - 1 then [((i, j), (i, j + 1))] else []) @
         (if i < r - 1 then [((i, j), (i + 1, j))] else []))
       [0..<c])) [0..<r]) @
     (if task \<ge> ''3''
      then concat (map (\<lambda>i. concat (map (\<lambda>j.
         [((i, j), (i + 1, j + 1)), ((i + 1, j), (i, j + 1))])
       [0..<c - 1])) [0..<r - 1])
      else [])"

subsection \<open>applySpring\<close>

definition applySpring ::
  "nat \<Rightarrow> nat \<Rightarrow> nat \<Rightarrow> nat \<Rightarrow> real \<Rightarrow> real \<Rightarrow> real \<Rightarrow> state \<Rightarrow> state option" where
  "applySpring i1 j1 i2 j2 L0 k b s = do {
     pr1 \<leftarrow> rowAt (positions s) i1;
     pr2 \<leftarrow> rowAt (positions s) i2;
     vr1 \<leftarrow> rowAt (velocities s) i1;
     vr2 \<leftarrow> rowAt (velocities s) i2;
     p2 \<leftarrow> elemAt pr2 j2;
     p1 \<leftarrow> elemAt pr1 j1;
     let dx = fst p2 - fst p1;
         dy = snd p2 - snd p1;
         dist = sqrt (dx * dx + dy * dy)
     in if dist = 0 then Some s
        else do {
          v2 \<leftarrow> elemAt vr2 j2;
          v1 \<leftarrow> elemAt vr1 j1;
          let dirX = dx / dist;
              dirY = dy / dist;
              springFx = k * (dist - L0) * dirX;
              springFy = k * (dist - L0) * dirY;
              relVelX = fst v2 - fst v1;
              relVelY = snd v2 - snd v1;
              relVelDotUnit = relVelX * dirX + relVelY * dirY;
              dampingFx = b * relVelDotUnit * dirX;
              dampingFy = b * relVelDotUnit * dirY;
              Fx = springFx + dampingFx;
              Fy = springFy + dampingFy
          in do {
            f1 \<leftarrow> modifyCell (forces s) i1 j1 (\<lambda>f. (fst f + Fx / mass, snd f + Fy / mass));
            f2 \<leftarrow> modifyCell f1 i2 j2 (\<lambda>f. (fst f - Fx / mass, snd f - Fy / mass));
            Some (s\<lparr>forces := f2\<rparr>)
          }
        }
   }"

subsection \<open>calculateForces\<close>

definition zeroForces :: "state \<Rightarrow> state option" where
  "zeroForces s =
     forEach [0..<rows s] (\<lambda>i. forEach [0..<cols s] (\<lambda>j t. do {
         f \<leftarrow> modifyCell (forces t) i j (\<lambda>_. (0, 0));
         Some (t\<lparr>forces := f\<rparr>)
       })) s"

definition structuralSprings :: "state \<Rightarrow> state option" where
  "structuralSprings s =
     forEach [0..<rows s] (\<lambda>i. forEach [0..<cols s] (\<lambda>j t. do {
         t1 \<leftarrow> (if j < cols s - 1
                then applySpring i j i (j + 1)
                       structuralRestLength structuralK structuralDamping t
                else Some t);
         if i < rows s - 1
         then applySpring i j (i + 1) j
                structuralRestLength structuralK structuralDamping t1
         else Some t1
       })) s"

definition shearSprings :: "state \<Rightarrow> state option" where
  "shearSprings s =
     forEach [0..<rows s - 1] (\<lambda>i. forEach [0..<cols s - 1] (\<lambda>j t. do {
         t1 \<leftarrow> applySpring i j (i + 1) (j + 1) shearRestLength shearK shearDamping t;
         applySpring (i + 1) j i (j + 1) shearRestLength shearK shearDamping t1
       })) s"

definition calculateForces :: "string \<Rightarrow> state \<Rightarrow> state option" where
  "calculateForces task s = do {
     s1 \<leftarrow> zeroForces s;
     s2 \<leftarrow> structuralSprings s1;
     if task \<ge> ''3'' then shearSprings s2 else Some s2
   }"

subsection \<open>The two integrators\<close>

text \<open>Rendering (\<^verbatim>\<open>drawNodes\<close>, \<^verbatim>\<open>drawEdges\<close>) reads the state and does not change it.\<close>

definition eulerCell :: "nat \<Rightarrow> nat \<Rightarrow> state \<Rightarrow> state option" where
  "eulerCell i j t = do {
     f \<leftarrow> cell (forces t) i j;
     vs \<leftarrow> modifyCell (velocities t) i j
             (\<lambda>v. (fst v + fst f * timeStep, snd v + snd f * timeStep));
     v \<leftarrow> cell vs i j;
     ps \<leftarrow> modifyCell (positions t) i j
             (\<lambda>p. (fst p + fst v * timeStep, snd p + snd v * timeStep));
     Some (t\<lparr>velocities := vs, positions := ps\<rparr>)
   }"

definition updatePositions :: "string \<Rightarrow> state \<Rightarrow> state option" where
  "updatePositions task s = do {
     s1 \<leftarrow> calculateForces task s;
     forEach [0..<rows s1] (\<lambda>i. forEach [0..<cols s1] (\<lambda>j. eulerCell i j)) s1
   }"

definition verletCell :: "real \<Rightarrow> real \<Rightarrow> nat \<Rightarrow> nat \<Rightarrow> state \<Rightarrow> state option" where
  "verletCell width height i j t = do {
     p \<leftarrow> cell (positions t) i j;
     pp \<leftarrow> cell (prevPositions t) i j;
     a \<leftarrow> cell (forces t) i j;
     let h = timeStep;
         x = fst p; y = snd p;
         px = fst pp; py = snd pp;
         ax = fst a; ay = snd a;
         newX = 2 * x - px + ax * h * h;
         newY = 2 * y - py + ay * h * h
     in do {
       prev1 \<leftarrow> modifyCell (prevPositions t) i j (\<lambda>_. (x, y));
       pos1 \<leftarrow> modifyCell (positions t) i j (\<lambda>_. (newX, newY));
       vel1 \<leftarrow> modifyCell (velocities t) i j
                 (\<lambda>_. ((newX - px) / (2 * h), (newY - py) / (2 * h)));
       pos2 \<leftarrow> modifyCell pos1 i j
                 (\<lambda>q. (max padding (min (width - padding) (fst q)),
                        max padding (min (height - padding) (snd q))));
       Some (t\<lparr>prevPositions := prev1, positions := pos2, velocities := vel1\<rparr>)
     }
   }"

definition updatePosVerlet :: "real \<Rightarrow> real \<Rightarrow> string \<Rightarrow> state \<Rightarrow> state option" where
  "updatePosVerlet width height task s = do {
     s1 \<leftarrow> calculateForces task s;
     forEach [0..<rows s1] (\<lambda>i. forEach [0..<cols s1] (\<lambda>j. verletCell width height i j)) s1
   }"

text \<open>\<open>n\<close> consecutive Verlet steps.\<close>

fun verletSteps :: "real \<Rightarrow> real \<Rightarrow> string \<Rightarrow> nat \<Rightarrow> state \<Rightarrow> state option" where
  "verletSteps width height task 0 s = Some s"
| "verletSteps width height task (Suc n) s =
     (case verletSteps width height task n s of
        None \<Rightarrow> None
      | Some t \<Rightarrow> updatePosVerlet width height task t)"

subsection \<open>The drag handler\<close>

text \<open>
  The datum \<^verbatim>\<open>d\<close> of a dragged circle is a reference to one cell of \<^verbatim>\<open>positions\<close>;
  it is given by the index \<open>(di, dj)\<close> of that cell, and an index outside the grid stands
  for no circle (the result is \<open>None\<close> there). The handler writes the pointer
  coordinates into the cell, clamps them, and then searches the grid for the cell that is
  \<^verbatim>\<open>d\<close> (reference equality, which holds at the index of \<^verbatim>\<open>d\<close> only) to copy the clamped
  position into \<^verbatim>\<open>prevPositions\<close>.
\<close>

definition drag :: "real \<Rightarrow> real \<Rightarrow> nat \<Rightarrow> nat \<Rightarrow> real \<Rightarrow> real \<Rightarrow> state \<Rightarrow> state option" where
  "drag width height di dj ex ey s = do {
     pos1 \<leftarrow> modifyCell (positions s) di dj (\<lambda>_. (ex, ey));
     pos2 \<leftarrow> modifyCell pos1 di dj
               (\<lambda>d. (max padding (min (width - padding) (fst d)),
                      max padding (min (height - padding) (snd d))));
     d \<leftarrow> cell pos2 di dj;
     forEach [0..<rows s] (\<lambda>i. forEach [0..<cols s] (\<lambda>j t. do {
         r \<leftarrow> rowAt (positions t) i;
         if elemAt r j \<noteq> None \<and> (i, j) = (di, dj)
         then do {
           prev1 \<leftarrow> modifyCell (prevPositions t) i j (\<lambda>_. d);
           Some (t\<lparr>prevPositions := prev1\<rparr>)
         }
         else Some t
       })) (s\<lparr>positions := pos2\<rparr>)
   }"

subsection \<open>Well-formed states\<close>

text \<open>
  \<^verbatim>\<open>initializeGrid\<close> builds the four grids with \<^verbatim>\<open>rows\<close> rows of \<^verbatim>\<open>cols\<close> cells each,
  and no function of the script changes the shape of a grid afterwards.
\<close>

definition gridShape :: "nat \<Rightarrow> nat \<Rightarrow> grid \<Rightarrow> bool" where
  "gridShape r c g = (length g = r \<and> list_all (\<lambda>row. length row = c) g)"

definition wellFormed :: "state \<Rightarrow> bool" where
  "wellFormed s =
     (gridShape (rows s) (cols s) (positions s) \<and>
      gridShape (rows s) (cols s) (velocities s) \<and>
      gridShape (rows s) (cols s) (forces s) \<and>
      gridShape (rows s) (cols s) (prevPositions s))"

subsection \<open>The spring force in the words of the specification\<close>

text \<open>
  Section 4.2 of the specification, steps 1 to 6: the displacement \<open>d = posB - posA\<close>, its
  length, the unit direction \<open>u = d / dist\<close>, the Hookean magnitude
  \<open>stiffness * (dist - restLength)\<close>, the damping magnitude (the relative velocity
  \<open>velB - velA\<close> projected onto \<open>u\<close>, scaled by \<open>dampingCoef\<close>), and their sum \<open>F\<close>.
\<close>

definition distance :: "vec \<Rightarrow> vec \<Rightarrow> real" where
  "distance posA posB =
     (let d = vsub posB posA in sqrt (fst d * fst d + snd d * snd d))"

definition unitDirection :: "vec \<Rightarrow> vec \<Rightarrow> vec" where
  "unitDirection posA posB = vscale (1 / distance posA posB) (vsub posB posA)"

definition dot :: "vec \<Rightarrow> vec \<Rightarrow> real" where
  "dot a b = fst a * fst b + snd a * snd b"

definition totalForce :: "vec \<Rightarrow> vec \<Rightarrow> vec \<Rightarrow> vec \<Rightarrow> real \<Rightarrow> real \<Rightarrow> real \<Rightarrow> real" where
  "totalForce posA posB velA velB restLength stiffness dampingCoef =
     (let springForce = stiffness * (distance posA posB - restLength);
          dampingForce = dampingCoef * dot (vsub velB velA) (unitDirection posA posB)
      in springForce + dampingForce)"

subsection \<open>Auxiliary notions for the proofs\<close>

text \<open>The vector sum of all cells of a grid.\<close>

definition gridTotal :: "grid \<Rightarrow> vec" where
  "gridTotal g = (sum_list (map fst (concat g)), sum_list (map snd (concat g)))"

text \<open>
  \<open>frame s t\<close>: the state \<open>t\<close> is well formed and differs from \<open>s\<close> in \<^verbatim>\<open>forces\<close> at most.
\<close>

definition frame :: "state \<Rightarrow> state \<Rightarrow> bool" where
  "frame s t =
     (wellFormed t \<and> rows t = rows s \<and> cols t = cols s \<and>
      positions t = positions s \<and> velocities t = velocities s \<and>
      prevPositions t = prevPositions s)"

definition keepsTotal :: "state \<Rightarrow> state \<Rightarrow> bool" where
  "keepsTotal s t = (frame s t \<and> gridTotal (forces t) = gridTotal (forces s))"

text \<open>The padded rectangle of section 4.5 of the specification.\<close>

definition inBounds :: "real \<Rightarrow> real \<Rightarrow> vec \<Rightarrow> bool" where
  "inBounds width height p =
     (padding \<le> fst p \<and> fst p \<le> width - padding \<and>
      padding \<le> snd p \<and> snd p \<le> height - padding)"

text \<open>
  The calls of \<^verbatim>\<open>applySpring\<close> that \<^verbatim>\<open>calculateForces\<close> makes, in the order of its loops:
  the pairs of cells, and each call with the constants it is given.
\<close>

definition structuralEdges :: "nat \<Rightarrow> nat \<Rightarrow> edge list" where
  "structuralEdges r c =
     concat (map (\<lambda>i. concat (map (\<lambda>j.
         (if j < c - 1 then [((i, j), (i, j + 1))] else []) @
         (if i < r - 1 then [((i, j), (i + 1, j))] else []))
       [0..<c])) [0..<r])"

definition shearEdges :: "nat \<Rightarrow> nat \<Rightarrow> edge list" where
  "shearEdges r c =
     concat (map (\<lambda>i. concat (map (\<lambda>j.
         [((i, j), (i + 1, j + 1)), ((i + 1, j), (i, j + 1))])
       [0..<c - 1])) [0..<r - 1])"

type_synonym springCall = "edge \<times> real \<times> real \<times> real"

definition springCalls :: "string \<Rightarrow> nat \<Rightarrow> nat \<Rightarrow> springCall list" where
  "springCalls task r c =
     map (\<lambda>e. (e, structuralRestLength, structuralK, structuralDamping)) (structuralEdges r c) @
     (if task \<ge> ''3''
      then map (\<lambda>e. (e, shearRestLength, shearK, shearDamping)) (shearEdges r c)
      else [])"

definition runCall :: "springCall \<Rightarrow> state \<Rightarrow> state option" where
  "runCall call s =
     (case call of (((i1, j1), (i2, j2)), L0, k, b) \<Rightarrow> applySpring i1 j1 i2 j2 L0 k b s)"

text \<open>
  The new position, the clamped position and the display velocity that one Verlet
  update computes for a point with position \<open>p\<close>, previous position \<open>pp\<close> and
  acceleration \<open>a\<close>.
\<close>

definition verletNext :: "vec \<Rightarrow> vec \<Rightarrow> vec \<Rightarrow> vec" where
  "verletNext p pp a =
     (2 * fst p - fst pp + fst a * timeStep * timeStep,
      2 * snd p - snd pp + snd a * timeStep * timeStep)"

definition verletVelocity :: "vec \<Rightarrow> vec \<Rightarrow> vec \<Rightarrow> vec" where
  "verletVelocity p pp a =
     ((fst (verletNext p pp a) - fst pp) / (2 * timeStep),
      (snd (verletNext p pp a) - snd pp) / (2 * timeStep))"

definition clampPoint :: "real \<Rightarrow> real \<Rightarrow> vec \<Rightarrow> vec" where
  "clampPoint width height q =
     (max padding (min (width - padding) (fst q)),
      max padding (min (height - padding) (snd q)))"

subsection \<open>Example states\<close>

text \<open>Two points on one row, 100 apart, at rest, with no force accumulated yet.\<close>

definition stretchedPair :: state where
  "stretchedPair = \<lparr> rows = 1, cols = 2,
     positions = [[(100, 200), (200, 200)]],
     velocities = [[(0, 0), (0, 0)]],
     forces = [[(0, 0), (0, 0)]],
     prevPositions = [[(100, 200), (200, 200)]] \<rparr>"

text \<open>Two points at the structural rest length, moving with the same velocity.\<close>

definition restingPair :: state where
  "restingPair = \<lparr> rows = 1, cols = 2,
     positions = [[(100, 200), (150, 200)]],
     velocities = [[(3, 4), (3, 4)]],
     forces = [[(1, 2), (5, 6)]],
     prevPositions = [[(100, 200), (150, 200)]] \<rparr>"

text \<open>Two points on top of each other.\<close>

definition coincidentPair :: state where
  "coincidentPair = \<lparr> rows = 1, cols = 2,
     positions = [[(100, 200), (100, 200)]],
     velocities = [[(1, 0), (0, 1)]],
     forces = [[(1, 2), (5, 6)]],
     prevPositions = [[(100, 200), (100, 200)]] \<rparr>"

text \<open>
  The state that \<^verbatim>\<open>initializeGrid\<close> builds for task 4 on a canvas of width 600 and height
  400: a 3 by 3 grid with the centre lifted by 40.
\<close>

definition taskFourGrid :: state where
  "taskFourGrid = \<lparr> rows = 3, cols = 3,
     positions = [[(50, 50), (300, 50), (550, 50)],
                  [(50, 200), (300, 160), (550, 200)],
                  [(50, 350), (300, 350), (550, 350)]],
     velocities = [[(0, 0), (0, 0), (0, 0)], [(0, 0), (0, 0), (0, 0)], [(0, 0), (0, 0), (0, 0)]],
     forces = [[(0, 0), (0, 0), (0, 0)], [(0, 0), (0, 0), (0, 0)], [(0, 0), (0, 0), (0, 0)]],
     prevPositions = [[(50, 50), (300, 50), (550, 50)],
                      [(50, 200), (300, 200), (550, 200)],
                      [(50, 350), (300, 350), (550, 350)]] \<rparr>"

text \<open>
  A single point left of the padded rectangle's centre line, moving left, with stale
  values in \<^verbatim>\<open>forces\<close> and \<^verbatim>\<open>prevPositions\<close>.
\<close>

definition driftingPoint :: state where
  "driftingPoint = \<lparr> rows = 1, cols = 1,
     positions = [[(50, 50)]],
     velocities = [[(- 1000, 0)]],
     forces = [[(7, 7)]],
     prevPositions = [[(60, 50)]] \<rparr>"

text \<open>Two points at the structural rest length, at rest.\<close>

definition atRest :: state where
  "atRest = \<lparr> rows = 1, cols = 2,
     positions = [[(100, 200), (150, 200)]],
     velocities = [[(0, 0), (0, 0)]],
     forces = [[(0, 0), (0, 0)]],
     prevPositions = [[(100, 200), (150, 200)]] \<rparr>"

text \<open>
  The state that \<^verbatim>\<open>initializeGrid\<close> builds for task 5 with one row and one column on a
  canvas of width 60 and height 400, and the state after one Verlet step from it.
\<close>

definition narrowStart :: state where
  "narrowStart = \<lparr> rows = 1, cols = 1,
     positions = [[(50, 160)]],
     velocities = [[(0, 0)]],
     forces = [[(0, 0)]],
     prevPositions = [[(50, 200)]] \<rparr>"

definition narrowNext :: state where
  "narrowNext = \<lparr> rows = 1, cols = 1,
     positions = [[(50, 120)]],
     velocities = [[(0, - 2500)]],
     forces = [[(0, 0)]],
     prevPositions = [[(50, 160)]] \<rparr>"

text \<open>
  The state that \<^verbatim>\<open>initializeGrid\<close> builds for task 1 on a canvas of width 600 and
  height 400.
\<close>

definition taskOneGrid :: state where
  "taskOneGrid = \<lparr> rows = 1, cols = 2,
     positions = [[(50, 200), (570, 200)]],
     velocities = [[(0, 0), (0, 0)]],
     forces = [[(0, 0), (0, 0)]],
     prevPositions = [[(50, 200), (550, 200)]] \<rparr>"

section \<open>Grid access\<close>

lemma cell_Some_iff:
  "cell g i j = Some v \<longleftrightarrow> i < length g \<and> j < length (g ! i) \<and> g ! i ! j = v"
  by (auto simp: cell_def rowAt_def elemAt_def)

lemma rowAt_of_cell: "cell g i j = Some v \<Longrightarrow> rowAt g i = Some (g ! i)"
  by (simp add: cell_Some_iff rowAt_def)

lemma elemAt_of_cell: "cell g i j = Some v \<Longrightarrow> elemAt (g ! i) j = Some v"
  by (simp add: cell_Some_iff elemAt_def)

lemma modifyCell_Some:
  "cell g i j = Some v \<Longrightarrow> modifyCell g i j h = Some (setCell g i j (h v))"
  by (simp add: modifyCell_def rowAt_of_cell elemAt_of_cell)

lemma cell_update_same:
  "cell g i j = Some v \<Longrightarrow> cell (setCell g i j w) i j = Some w"
  by (simp add: cell_Some_iff setCell_def)

lemma cell_update_other:
  "(i', j') \<noteq> (i, j) \<Longrightarrow> cell (setCell g i j w) i' j' = cell g i' j'"
  by (cases "i < length g"; cases "i' = i")
     (auto simp: cell_def rowAt_def elemAt_def setCell_def nth_list_update)

lemma sqrt_sum_squares_eq_0: "sqrt (a * a + b * b) = 0 \<longleftrightarrow> a = 0 \<and> b = 0"
  by (simp add: sum_squares_eq_zero_iff)

lemma distance_eq_0: "distance p q = 0 \<longleftrightarrow> p = q"
  by (auto simp: distance_def vsub_def Let_def sqrt_sum_squares_eq_0 prod_eq_iff)

section \<open>applySpring\<close>

text \<open>
  What one call does when both points exist in the grids it reads: nothing when the
  points coincide, and otherwise two writes to \<^verbatim>\<open>forces\<close>, stated with the force of the
  specification's steps 1 to 6.
\<close>

lemma applySpring_coincident:
  assumes pA: "cell (positions s) i1 j1 = Some p1"
      and pB: "cell (positions s) i2 j2 = Some p2"
      and vA: "cell (velocities s) i1 j1 = Some v1"
      and vB: "cell (velocities s) i2 j2 = Some v2"
      and d: "distance p1 p2 = 0"
  shows "applySpring i1 j1 i2 j2 L0 k b s = Some s"
proof -
  from d have "p2 = p1" by (simp add: distance_eq_0)
  then show ?thesis
    unfolding applySpring_def
    by (simp add: rowAt_of_cell [OF pA] rowAt_of_cell [OF pB] rowAt_of_cell [OF vA]
          rowAt_of_cell [OF vB] elemAt_of_cell [OF pA] elemAt_of_cell [OF pB] Let_def)
qed

lemma force_alg: "(K * u + B * u) / m = (K + B) / m * u" for K :: real
  by (simp add: field_simps)

lemma force_components:
  assumes d: "distance p1 p2 \<noteq> 0"
  shows "(k * (distance p1 p2 - L0) * ((fst p2 - fst p1) / distance p1 p2)
              + b * ((fst v2 - fst v1) * ((fst p2 - fst p1) / distance p1 p2)
                   + (snd v2 - snd v1) * ((snd p2 - snd p1) / distance p1 p2))
                  * ((fst p2 - fst p1) / distance p1 p2)) / mass
         = fst (vscale (totalForce p1 p2 v1 v2 L0 k b / mass) (unitDirection p1 p2))"
   and "(k * (distance p1 p2 - L0) * ((snd p2 - snd p1) / distance p1 p2)
              + b * ((fst v2 - fst v1) * ((fst p2 - fst p1) / distance p1 p2)
                   + (snd v2 - snd v1) * ((snd p2 - snd p1) / distance p1 p2))
                  * ((snd p2 - snd p1) / distance p1 p2)) / mass
         = snd (vscale (totalForce p1 p2 v1 v2 L0 k b / mass) (unitDirection p1 p2))"
proof -
  define D where "D = distance p1 p2"
  have u: "unitDirection p1 p2 = ((fst p2 - fst p1) / D, (snd p2 - snd p1) / D)"
    by (simp add: unitDirection_def vscale_def vsub_def D_def)
  have F: "totalForce p1 p2 v1 v2 L0 k b = k * (D - L0) + b * ((fst v2 - fst v1) * ((fst p2 - fst p1) / D)
                   + (snd v2 - snd v1) * ((snd p2 - snd p1) / D))"
    by (simp add: totalForce_def Let_def u dot_def vsub_def D_def)
  show "(k * (distance p1 p2 - L0) * ((fst p2 - fst p1) / distance p1 p2)
              + b * ((fst v2 - fst v1) * ((fst p2 - fst p1) / distance p1 p2)
                   + (snd v2 - snd v1) * ((snd p2 - snd p1) / distance p1 p2))
                  * ((fst p2 - fst p1) / distance p1 p2)) / mass
         = fst (vscale (totalForce p1 p2 v1 v2 L0 k b / mass) (unitDirection p1 p2))"
    unfolding F u D_def [symmetric] by (simp only: vscale_def fst_conv snd_conv force_alg)
  show "(k * (distance p1 p2 - L0) * ((snd p2 - snd p1) / distance p1 p2)
              + b * ((fst v2 - fst v1) * ((fst p2 - fst p1) / distance p1 p2)
                   + (snd v2 - snd v1) * ((snd p2 - snd p1) / distance p1 p2))
                  * ((snd p2 - snd p1) / distance p1 p2)) / mass
         = snd (vscale (totalForce p1 p2 v1 v2 L0 k b / mass) (unitDirection p1 p2))"
    unfolding F u D_def [symmetric] by (simp only: vscale_def fst_conv snd_conv force_alg)
qed


lemma applySpring_in_range:
  assumes pA: "cell (positions s) i1 j1 = Some p1"
      and pB: "cell (positions s) i2 j2 = Some p2"
      and vA: "cell (velocities s) i1 j1 = Some v1"
      and vB: "cell (velocities s) i2 j2 = Some v2"
      and fA: "cell (forces s) i1 j1 = Some fa"
      and fB: "cell (forces s) i2 j2 = Some fb"
      and d: "distance p1 p2 \<noteq> 0"
  shows "applySpring i1 j1 i2 j2 L0 k b s =
           Some (s\<lparr>forces :=
             setCell
               (setCell (forces s) i1 j1
                  (vadd fa (vscale (totalForce p1 p2 v1 v2 L0 k b / mass) (unitDirection p1 p2))))
               i2 j2
               (vsub fb (vscale (totalForce p1 p2 v1 v2 L0 k b / mass) (unitDirection p1 p2)))\<rparr>)"
proof -
  let ?W = "vscale (totalForce p1 p2 v1 v2 L0 k b / mass) (unitDirection p1 p2)"
  let ?f1 = "setCell (forces s) i1 j1 (fst fa + fst ?W, snd fa + snd ?W)"
  from d have ne: "(i2, j2) \<noteq> (i1, j1)"
    using pA pB by (auto simp: distance_eq_0)
  have fB1: "cell ?f1 i2 j2 = Some fb"
    using cell_update_other [OF ne] fB by simp
  have dist: "sqrt ((fst p2 - fst p1) * (fst p2 - fst p1) + (snd p2 - snd p1) * (snd p2 - snd p1))
                = distance p1 p2"
    by (simp add: distance_def vsub_def)
  have m1: "modifyCell (forces s) i1 j1 h = Some (setCell (forces s) i1 j1 (h fa))" for h
    by (rule modifyCell_Some [OF fA])
  have m2: "modifyCell ?f1 i2 j2 h = Some (setCell ?f1 i2 j2 (h fb))" for h
    by (rule modifyCell_Some [OF fB1])
  have "applySpring i1 j1 i2 j2 L0 k b s =
          Some (s\<lparr>forces := setCell ?f1 i2 j2 (fst fb - fst ?W, snd fb - snd ?W)\<rparr>)"
    unfolding applySpring_def
    by (simp only: rowAt_of_cell [OF pA] rowAt_of_cell [OF pB] rowAt_of_cell [OF vA]
          rowAt_of_cell [OF vB] elemAt_of_cell [OF pA] elemAt_of_cell [OF pB]
          elemAt_of_cell [OF vA] elemAt_of_cell [OF vB] Option.bind.simps Let_def
          dist d if_False force_components [OF d] m1 m2)
  then show ?thesis
    by (simp add: vadd_def vsub_def)
qed

lemma applySpring_forces:
  assumes pA: "cell (positions s) i1 j1 = Some p1"
      and pB: "cell (positions s) i2 j2 = Some p2"
      and vA: "cell (velocities s) i1 j1 = Some v1"
      and vB: "cell (velocities s) i2 j2 = Some v2"
      and fA: "cell (forces s) i1 j1 = Some fa"
      and fB: "cell (forces s) i2 j2 = Some fb"
      and d: "distance p1 p2 \<noteq> 0"
  shows "\<exists>s'. applySpring i1 j1 i2 j2 L0 k b s = Some s' \<and>
           cell (forces s') i1 j1 =
             Some (vadd fa (vscale (totalForce p1 p2 v1 v2 L0 k b / mass) (unitDirection p1 p2))) \<and>
           cell (forces s') i2 j2 =
             Some (vsub fb (vscale (totalForce p1 p2 v1 v2 L0 k b / mass) (unitDirection p1 p2)))"
proof -
  let ?W = "vscale (totalForce p1 p2 v1 v2 L0 k b / mass) (unitDirection p1 p2)"
  let ?f1 = "setCell (forces s) i1 j1 (vadd fa ?W)"
  from d have ne: "(i1, j1) \<noteq> (i2, j2)"
    using pA pB by (auto simp: distance_eq_0)
  have a1: "cell ?f1 i1 j1 = Some (vadd fa ?W)"
    by (rule cell_update_same [OF fA])
  from ne have ne': "(i2, j2) \<noteq> (i1, j1)"
    by auto
  have b1: "cell ?f1 i2 j2 = Some fb"
    using cell_update_other [OF ne'] fB by simp
  have a2: "cell (setCell ?f1 i2 j2 (vsub fb ?W)) i1 j1 = Some (vadd fa ?W)"
    using cell_update_other [OF ne] a1 by simp
  have b2: "cell (setCell ?f1 i2 j2 (vsub fb ?W)) i2 j2 = Some (vsub fb ?W)"
    by (rule cell_update_same [OF b1])
  show ?thesis
    using applySpring_in_range [OF pA pB vA vB fA fB d, of L0 k b] a2 b2 by simp
qed

lemma sqrt_10000: "sqrt 10000 = 100"
  using real_sqrt_abs [of 100] by simp

lemma sqrt_2500: "sqrt 2500 = 50"
  using real_sqrt_abs [of 50] by simp

text \<open>
  Claim C1, as amended. For two points at nonzero distance, with \<open>F\<close> the total spring
  plus damping force along the unit vector \<open>u\<close> from point A to point B, one call adds
  \<open>(F / mass) u\<close> to the accumulated force of point A and subtracts \<open>(F / mass) u\<close> from
  the accumulated force of point B: a stretched spring pulls A towards B.
\<close>

theorem applySpring_adds_to_A_subtracts_from_B:
  assumes "cell (positions s) i1 j1 = Some posA"
      and "cell (positions s) i2 j2 = Some posB"
      and "cell (velocities s) i1 j1 = Some velA"
      and "cell (velocities s) i2 j2 = Some velB"
      and "cell (forces s) i1 j1 = Some forceA"
      and "cell (forces s) i2 j2 = Some forceB"
      and "distance posA posB \<noteq> 0"
  shows "\<exists>s'. applySpring i1 j1 i2 j2 restLength stiffness dampingCoef s = Some s' \<and>
           cell (forces s') i1 j1 =
             Some (vadd forceA
                    (vscale (totalForce posA posB velA velB restLength stiffness dampingCoef / mass)
                       (unitDirection posA posB))) \<and>
           cell (forces s') i2 j2 =
             Some (vsub forceB
                    (vscale (totalForce posA posB velA velB restLength stiffness dampingCoef / mass)
                       (unitDirection posA posB)))"
  using assms by (rule applySpring_forces)

theorem applySpring_adds_to_A_subtracts_from_B_witness:
  "\<exists>s'. applySpring 0 0 0 1 50 20 (1 / 10) stretchedPair = Some s' \<and>
     cell (forces s') 0 0 = Some (5000, 0) \<and>
     cell (forces s') 0 1 = Some (- 5000, 0)"
  using applySpring_adds_to_A_subtracts_from_B
    [where s = stretchedPair and ?i1.0 = 0 and ?j1.0 = 0 and ?i2.0 = 0 and ?j2.0 = 1
       and posA = "(100, 200)" and posB = "(200, 200)" and velA = "(0, 0)" and velB = "(0, 0)"
       and forceA = "(0, 0)" and forceB = "(0, 0)"
       and restLength = 50 and stiffness = 20 and dampingCoef = "1 / 10"]
  by (simp add: stretchedPair_def cell_def rowAt_def elemAt_def distance_def vsub_def vadd_def
        vscale_def totalForce_def unitDirection_def dot_def mass_def sqrt_10000)

text \<open>
  Claim C1 as the specification words it fails: for the stretched pair, \<open>F / mass\<close> is
  5000 and \<open>u\<close> is \<open>(1, 0)\<close>; decreasing the force of point A by \<open>(F / mass) u\<close> would leave
  \<open>(-5000, 0)\<close> there and \<open>(5000, 0)\<close> at point B, and the call leaves the opposite.
\<close>

theorem applySpring_sign_counterexample:
  "applySpring 0 0 0 1 50 20 (1 / 10) stretchedPair =
     Some (stretchedPair\<lparr>forces := [[(5000, 0), (- 5000, 0)]]\<rparr>) \<and>
   vsub (0, 0)
     (vscale (totalForce (100, 200) (200, 200) (0, 0) (0, 0) 50 20 (1 / 10) / mass)
        (unitDirection (100, 200) (200, 200))) = (- 5000, 0) \<and>
   vadd (0, 0)
     (vscale (totalForce (100, 200) (200, 200) (0, 0) (0, 0) 50 20 (1 / 10) / mass)
        (unitDirection (100, 200) (200, 200))) = (5000, 0) \<and>
   ((5000, 0) :: vec) \<noteq> (- 5000, 0)"
  by (simp add: applySpring_def stretchedPair_def modifyCell_def setCell_def rowAt_def
        elemAt_def distance_def vsub_def vadd_def vscale_def totalForce_def unitDirection_def
        dot_def mass_def sqrt_10000 Let_def)

text \<open>
  Claim C3. For one call on two points at nonzero distance, whatever the rest length,
  stiffness and damping, the vector added to the accumulator of one point is the negative
  of the vector added to the accumulator of the other.
\<close>

theorem applySpring_newton_third_law:
  assumes "cell (positions s) i1 j1 = Some posA"
      and "cell (positions s) i2 j2 = Some posB"
      and "cell (velocities s) i1 j1 = Some velA"
      and "cell (velocities s) i2 j2 = Some velB"
      and "cell (forces s) i1 j1 = Some forceA"
      and "cell (forces s) i2 j2 = Some forceB"
      and "distance posA posB \<noteq> 0"
  shows "\<exists>s' forceA' forceB'.
           applySpring i1 j1 i2 j2 restLength stiffness dampingCoef s = Some s' \<and>
           cell (forces s') i1 j1 = Some forceA' \<and>
           cell (forces s') i2 j2 = Some forceB' \<and>
           vsub forceA' forceA = vneg (vsub forceB' forceB)"
proof -
  from applySpring_forces [OF assms, of restLength stiffness dampingCoef]
  obtain s' where
    "applySpring i1 j1 i2 j2 restLength stiffness dampingCoef s = Some s'"
    "cell (forces s') i1 j1 =
       Some (vadd forceA
              (vscale (totalForce posA posB velA velB restLength stiffness dampingCoef / mass)
                 (unitDirection posA posB)))"
    "cell (forces s') i2 j2 =
       Some (vsub forceB
              (vscale (totalForce posA posB velA velB restLength stiffness dampingCoef / mass)
                 (unitDirection posA posB)))"
    by blast
  moreover have "vsub (vadd forceA w) forceA = vneg (vsub (vsub forceB w) forceB)" for w
    by (simp add: vsub_def vadd_def vneg_def)
  ultimately show ?thesis by blast
qed

theorem applySpring_newton_third_law_witness:
  "\<exists>s' forceA' forceB'.
     applySpring 0 0 0 1 50 20 (1 / 10) stretchedPair = Some s' \<and>
     cell (forces s') 0 0 = Some forceA' \<and>
     cell (forces s') 0 1 = Some forceB' \<and>
     vsub forceA' (0, 0) = vneg (vsub forceB' (0, 0))"
  using applySpring_newton_third_law
    [where s = stretchedPair and ?i1.0 = 0 and ?j1.0 = 0 and ?i2.0 = 0 and ?j2.0 = 1
       and posA = "(100, 200)" and posB = "(200, 200)" and velA = "(0, 0)" and velB = "(0, 0)"
       and forceA = "(0, 0)" and forceB = "(0, 0)"
       and restLength = 50 and stiffness = 20 and dampingCoef = "1 / 10"]
  by (simp add: stretchedPair_def cell_def rowAt_def elemAt_def distance_eq_0)

text \<open>
  Claim C4. A call on two coincident points (distance exactly 0) raises no error and
  returns the state it was given: no accumulator and nothing else is changed.
\<close>

theorem applySpring_coincident_noop:
  assumes "cell (positions s) i1 j1 = Some posA"
      and "cell (positions s) i2 j2 = Some posB"
      and "cell (velocities s) i1 j1 = Some velA"
      and "cell (velocities s) i2 j2 = Some velB"
      and "distance posA posB = 0"
  shows "applySpring i1 j1 i2 j2 restLength stiffness dampingCoef s = Some s"
  using assms by (rule applySpring_coincident)

theorem applySpring_coincident_noop_witness:
  "applySpring 0 0 0 1 50 20 (1 / 10) coincidentPair = Some coincidentPair"
  using applySpring_coincident_noop
    [where s = coincidentPair and ?i1.0 = 0 and ?j1.0 = 0 and ?i2.0 = 0 and ?j2.0 = 1
       and posA = "(100, 200)" and posB = "(100, 200)" and velA = "(1, 0)" and velB = "(0, 1)"
       and restLength = 50 and stiffness = 20 and dampingCoef = "1 / 10"]
  by (simp add: coincidentPair_def cell_def rowAt_def elemAt_def distance_eq_0)

text \<open>
  Claim C8. For one call on two points whose distance equals the rest length and whose
  relative velocity is zero, the vector added to each of the two accumulators is
  \<open>(0, 0)\<close>.
\<close>

theorem applySpring_rest_length_zero_force:
  assumes pA: "cell (positions s) i1 j1 = Some posA"
      and pB: "cell (positions s) i2 j2 = Some posB"
      and vA: "cell (velocities s) i1 j1 = Some velA"
      and vB: "cell (velocities s) i2 j2 = Some velB"
      and fA: "cell (forces s) i1 j1 = Some forceA"
      and fB: "cell (forces s) i2 j2 = Some forceB"
      and rest: "distance posA posB = restLength"
      and rel: "vsub velB velA = (0, 0)"
  shows "\<exists>s' forceA' forceB'.
           applySpring i1 j1 i2 j2 restLength stiffness dampingCoef s = Some s' \<and>
           cell (forces s') i1 j1 = Some forceA' \<and>
           cell (forces s') i2 j2 = Some forceB' \<and>
           vsub forceA' forceA = (0, 0) \<and>
           vsub forceB' forceB = (0, 0)"
proof (cases "distance posA posB = 0")
  case True
  then have "applySpring i1 j1 i2 j2 restLength stiffness dampingCoef s = Some s"
    by (rule applySpring_coincident [OF pA pB vA vB])
  then show ?thesis
    using fA fB by (simp add: vsub_def)
next
  case False
  have F: "totalForce posA posB velA velB restLength stiffness dampingCoef = 0"
    by (simp add: totalForce_def rest rel dot_def)
  from applySpring_forces [OF pA pB vA vB fA fB False, of restLength stiffness dampingCoef]
  show ?thesis
    by (auto simp: F vscale_def vadd_def vsub_def)
qed

theorem applySpring_rest_length_zero_force_witness:
  "\<exists>s' forceA' forceB'.
     applySpring 0 0 0 1 50 20 (1 / 10) restingPair = Some s' \<and>
     cell (forces s') 0 0 = Some forceA' \<and>
     cell (forces s') 0 1 = Some forceB' \<and>
     vsub forceA' (1, 2) = (0, 0) \<and>
     vsub forceB' (5, 6) = (0, 0)"
  using applySpring_rest_length_zero_force
    [where s = restingPair and ?i1.0 = 0 and ?j1.0 = 0 and ?i2.0 = 0 and ?j2.0 = 1
       and posA = "(100, 200)" and posB = "(150, 200)" and velA = "(3, 4)" and velB = "(3, 4)"
       and forceA = "(1, 2)" and forceB = "(5, 6)"
       and restLength = 50 and stiffness = 20 and dampingCoef = "1 / 10"]
  by (simp add: restingPair_def cell_def rowAt_def elemAt_def distance_def vsub_def sqrt_2500)

section \<open>Loops and their invariants\<close>

lemma forEach_append:
  "forEach (xs @ ys) body s =
     (case forEach xs body s of None \<Rightarrow> None | Some t \<Rightarrow> forEach ys body t)"
  by (induction xs arbitrary: s) (auto split: option.splits)

lemma forEach_invariant:
  assumes "P s"
      and "\<And>x t. x \<in> set xs \<Longrightarrow> P t \<Longrightarrow> \<exists>t'. body x t = Some t' \<and> P t'"
  shows "\<exists>t. forEach xs body s = Some t \<and> P t"
  using assms
proof (induction xs arbitrary: s)
  case Nil
  then show ?case by simp
next
  case (Cons x xs)
  from Cons.prems obtain t' where t': "body x s = Some t'" "P t'"
    by (meson list.set_intros(1))
  have "\<exists>t. forEach xs body t' = Some t \<and> P t"
    by (rule Cons.IH [OF t'(2)]) (simp add: Cons.prems(2))
  with t' show ?case by simp
qed

lemma forEach_upt_invariant:
  assumes "P 0 s"
      and "\<And>k t. k < n \<Longrightarrow> P k t \<Longrightarrow> \<exists>t'. body k t = Some t' \<and> P (Suc k) t'"
  shows "\<exists>t. forEach [0..<n] body s = Some t \<and> P n t"
  using assms(2)
proof (induction n)
  case 0
  then show ?case using assms(1) by simp
next
  case (Suc n)
  have "\<exists>t. forEach [0..<n] body s = Some t \<and> P n t"
    by (rule Suc.IH) (simp add: Suc.prems)
  then obtain t where t: "forEach [0..<n] body s = Some t" "P n t"
    by blast
  from Suc.prems [of n t] t(2) obtain t' where "body n t = Some t'" "P (Suc n) t'"
    by auto
  with t show ?case
    by (simp add: forEach_append)
qed

lemma grid_loop:
  assumes I0: "I s"
      and U0: "\<And>i j. i < r \<Longrightarrow> j < c \<Longrightarrow> U i j s"
      and step: "\<And>i j t. i < r \<Longrightarrow> j < c \<Longrightarrow> I t \<Longrightarrow> U i j t \<Longrightarrow>
                  \<exists>t'. body i j t = Some t' \<and> I t' \<and> R i j t' \<and>
                    (\<forall>i' j'. (i', j') \<noteq> (i, j) \<longrightarrow> i' < r \<longrightarrow> j' < c \<longrightarrow>
                       (U i' j' t \<longrightarrow> U i' j' t') \<and> (R i' j' t \<longrightarrow> R i' j' t'))"
  shows "\<exists>t. forEach [0..<r] (\<lambda>i. forEach [0..<c] (body i)) s = Some t \<and> I t \<and>
           (\<forall>i j. i < r \<longrightarrow> j < c \<longrightarrow> R i j t)"
proof -
  define seen :: "nat \<Rightarrow> nat \<Rightarrow> nat \<Rightarrow> nat \<Rightarrow> bool"
    where "seen i j i' j' \<longleftrightarrow> i' < i \<or> (i' = i \<and> j' < j)" for i j i' j'
  define P where "P i j t \<longleftrightarrow> I t \<and>
      (\<forall>i' j'. i' < r \<longrightarrow> j' < c \<longrightarrow> (if seen i j i' j' then R i' j' t else U i' j' t))"
    for i j t
  have inner_step: "\<exists>t'. body i j t = Some t' \<and> P i (Suc j) t'"
    if "i < r" "j < c" "P i j t" for i j t
  proof -
    from that have "I t" "U i j t"
      by (auto simp: P_def seen_def)
    from step [OF that(1,2) this] obtain t' where t': "body i j t = Some t'" "I t'" "R i j t'"
      "\<And>i' j'. (i', j') \<noteq> (i, j) \<Longrightarrow> i' < r \<Longrightarrow> j' < c \<Longrightarrow>
          (U i' j' t \<longrightarrow> U i' j' t') \<and> (R i' j' t \<longrightarrow> R i' j' t')"
      by blast
    have "if seen i (Suc j) i' j' then R i' j' t' else U i' j' t'"
      if b: "i' < r" "j' < c" for i' j'
    proof (cases "(i', j') = (i, j)")
      case True
      then show ?thesis using t'(3) by (simp add: seen_def)
    next
      case False
      then have "seen i (Suc j) i' j' = seen i j i' j'"
        by (auto simp: seen_def)
      moreover have "if seen i j i' j' then R i' j' t else U i' j' t"
        using \<open>P i j t\<close> b by (simp add: P_def)
      ultimately show ?thesis
        using t'(4) [OF False b] by (simp split: if_splits)
    qed
    with t'(1,2) show ?thesis
      by (auto simp: P_def)
  qed
  have row: "\<exists>t'. forEach [0..<c] (body i) t = Some t' \<and> P (Suc i) 0 t'"
    if "i < r" "P i 0 t" for i t
  proof -
    have "\<exists>t'. forEach [0..<c] (body i) t = Some t' \<and> P i c t'"
      by (rule forEach_upt_invariant [where P = "P i"]) (use that inner_step in auto)
    moreover have "P (Suc i) 0 t'" if "P i c t'" for t'
    proof -
      have "seen (Suc i) 0 i' j' = seen i c i' j'" if "j' < c" for i' j'
        using that by (auto simp: seen_def)
      with \<open>P i c t'\<close> show ?thesis
        unfolding P_def by simp
    qed
    ultimately show ?thesis by blast
  qed
  have "P 0 0 s"
    using I0 U0 by (simp add: P_def seen_def)
  then have "\<exists>t. forEach [0..<r] (\<lambda>i. forEach [0..<c] (body i)) s = Some t \<and> P r 0 t"
    by (rule forEach_upt_invariant [where P = "\<lambda>i. P i 0"]) (use row in auto)
  then show ?thesis
    by (auto simp: P_def seen_def)
qed

section \<open>calculateForces\<close>



lemma gridShape_cell:
  "gridShape r c g \<Longrightarrow> i < r \<Longrightarrow> j < c \<Longrightarrow> cell g i j = Some (g ! i ! j)"
  by (simp add: gridShape_def cell_Some_iff list_all_length)

lemma gridShape_setCell:
  assumes "gridShape r c g"
  shows "gridShape r c (setCell g i j w)"
proof -
  have "length (g[i := (g ! i)[j := w]] ! n) = c" if "n < length g" for n
    using that assms by (cases "n = i") (simp_all add: gridShape_def list_all_length)
  with assms show ?thesis
    by (simp add: gridShape_def setCell_def list_all_length)
qed

lemma frame_forces:
  "frame s t \<Longrightarrow> gridShape (rows s) (cols s) (forces t)"
  by (auto simp: frame_def wellFormed_def)

lemma frame_forces_update:
  "frame s t \<Longrightarrow> gridShape (rows s) (cols s) f \<Longrightarrow> frame s (t\<lparr>forces := f\<rparr>)"
  by (auto simp: frame_def wellFormed_def)

lemma wellFormed_cells:
  assumes "wellFormed t" "i < rows t" "j < cols t"
  shows "cell (positions t) i j = Some (positions t ! i ! j)"
    and "cell (velocities t) i j = Some (velocities t ! i ! j)"
    and "cell (forces t) i j = Some (forces t ! i ! j)"
    and "cell (prevPositions t) i j = Some (prevPositions t ! i ! j)"
  using assms by (auto simp: wellFormed_def intro: gridShape_cell)

lemma nth_setCell:
  "cell g i j = Some v \<Longrightarrow>
     setCell g i j w ! i' ! j' = (if (i', j') = (i, j) then w else g ! i' ! j')"
  by (auto simp: cell_Some_iff setCell_def nth_list_update)

lemma sum_list_map_update:
  fixes f :: "'a \<Rightarrow> real"
  shows "j < length xs \<Longrightarrow>
    sum_list (map f (xs[j := w])) = sum_list (map f xs) + f w - f (xs ! j)"
  by (induction xs arbitrary: j) (auto split: nat.splits)

lemma sum_list_map_concat:
  fixes f :: "'a \<Rightarrow> real"
  shows "sum_list (map f (concat g)) = sum_list (map (\<lambda>r. sum_list (map f r)) g)"
  by (induction g) auto

lemma sum_list_concat_setCell:
  fixes f :: "vec \<Rightarrow> real"
  assumes "cell g i j = Some v"
  shows "sum_list (map f (concat (setCell g i j w))) = sum_list (map f (concat g)) + f w - f v"
proof -
  from assms have i: "i < length g" and j: "j < length (g ! i)" and v: "g ! i ! j = v"
    by (simp_all add: cell_Some_iff)
  have "sum_list (map f (concat (setCell g i j w)))
          = sum_list (map (\<lambda>r. sum_list (map f r)) (g[i := (g ! i)[j := w]]))"
    by (simp add: sum_list_map_concat setCell_def)
  also have "\<dots> = sum_list (map (\<lambda>r. sum_list (map f r)) g)
                     + sum_list (map f ((g ! i)[j := w])) - sum_list (map f (g ! i))"
    by (rule sum_list_map_update [OF i])
  also have "sum_list (map f ((g ! i)[j := w])) = sum_list (map f (g ! i)) + f w - f v"
    using sum_list_map_update [OF j, of f w] v by simp
  finally show ?thesis
    by (simp add: sum_list_map_concat)
qed

lemma gridTotal_setCell:
  "cell g i j = Some v \<Longrightarrow> gridTotal (setCell g i j w) = vadd (gridTotal g) (vsub w v)"
  by (simp add: gridTotal_def sum_list_concat_setCell vadd_def vsub_def)

lemma sum_list_all_zero:
  fixes f :: "'a \<Rightarrow> real"
  shows "(\<And>x. x \<in> set xs \<Longrightarrow> f x = 0) \<Longrightarrow> sum_list (map f xs) = 0"
  by (induction xs) auto

lemma gridTotal_zero:
  assumes "\<And>i j. i < length g \<Longrightarrow> j < length (g ! i) \<Longrightarrow> g ! i ! j = (0, 0)"
  shows "gridTotal g = (0, 0)"
proof -
  have zero: "x = (0, 0)" if "x \<in> set (concat g)" for x
  proof -
    from that obtain r where "r \<in> set g" "x \<in> set r" by auto
    then obtain i j where "i < length g" "g ! i = r" "j < length r" "r ! j = x"
      by (metis in_set_conv_nth)
    with assms [of i j] show ?thesis by auto
  qed
  have z: "fst x = 0" "snd x = 0" if "x \<in> set (concat g)" for x
    using zero [OF that] by simp_all
  have "sum_list (map fst (concat g)) = 0"
    by (rule sum_list_all_zero) (rule z)
  moreover have "sum_list (map snd (concat g)) = 0"
    by (rule sum_list_all_zero) (rule z)
  ultimately show ?thesis
    by (simp add: gridTotal_def)
qed

text \<open>A call of \<^verbatim>\<open>applySpring\<close> between two cells of a well-formed state.\<close>

lemma applySpring_preserves:
  assumes wf: "wellFormed t"
      and A: "i1 < rows t" "j1 < cols t"
      and B: "i2 < rows t" "j2 < cols t"
  shows "\<exists>t'. applySpring i1 j1 i2 j2 L0 k b t = Some t' \<and> frame t t' \<and>
           gridTotal (forces t') = gridTotal (forces t)"
proof -
  let ?p1 = "positions t ! i1 ! j1" and ?p2 = "positions t ! i2 ! j2"
  let ?v1 = "velocities t ! i1 ! j1" and ?v2 = "velocities t ! i2 ! j2"
  let ?fa = "forces t ! i1 ! j1" and ?fb = "forces t ! i2 ! j2"
  note cA = wellFormed_cells [OF wf A] and cB = wellFormed_cells [OF wf B]
  note pA = cA(1) and pB = cB(1) and vA = cA(2) and vB = cB(2) and fA = cA(3) and fB = cB(3)
  show ?thesis
  proof (cases "distance ?p1 ?p2 = 0")
    case True
    from applySpring_coincident [OF pA pB vA vB True, of L0 k b] wf
    show ?thesis by (simp add: frame_def)
  next
    case False
    let ?W = "vscale (totalForce ?p1 ?p2 ?v1 ?v2 L0 k b / mass) (unitDirection ?p1 ?p2)"
    let ?f1 = "setCell (forces t) i1 j1 (vadd ?fa ?W)"
    let ?f2 = "setCell ?f1 i2 j2 (vsub ?fb ?W)"
    from False have ne: "(i2, j2) \<noteq> (i1, j1)"
      using pA pB by (auto simp: distance_eq_0)
    have fB1: "cell ?f1 i2 j2 = Some ?fb"
      using cell_update_other [OF ne] fB by simp
    have run: "applySpring i1 j1 i2 j2 L0 k b t = Some (t\<lparr>forces := ?f2\<rparr>)"
      by (rule applySpring_in_range [OF pA pB vA vB fA fB False])
    have "gridTotal ?f2 = vadd (gridTotal ?f1) (vsub (vsub ?fb ?W) ?fb)"
      by (rule gridTotal_setCell [OF fB1])
    also have "gridTotal ?f1 = vadd (gridTotal (forces t)) (vsub (vadd ?fa ?W) ?fa)"
      by (rule gridTotal_setCell [OF fA])
    finally have total: "gridTotal ?f2 = gridTotal (forces t)"
      by (simp add: vadd_def vsub_def)
    have "gridShape (rows t) (cols t) ?f2"
      using wf by (simp add: wellFormed_def gridShape_setCell)
    with wf have "frame t (t\<lparr>forces := ?f2\<rparr>)"
      by (simp add: frame_def wellFormed_def)
    with run total show ?thesis by simp
  qed
qed

lemma frame_refl: "wellFormed s \<Longrightarrow> frame s s"
  by (simp add: frame_def)

lemma frame_trans: "frame s t \<Longrightarrow> frame t u \<Longrightarrow> frame s u"
  by (simp add: frame_def)

lemma applySpring_keepsTotal:
  assumes "keepsTotal s t" "i1 < rows s" "j1 < cols s" "i2 < rows s" "j2 < cols s"
  shows "\<exists>t'. applySpring i1 j1 i2 j2 L0 k b t = Some t' \<and> keepsTotal s t'"
proof -
  from assms have wf: "wellFormed t" and dims: "rows t = rows s" "cols t = cols s"
    by (simp_all add: keepsTotal_def frame_def)
  from applySpring_preserves [OF wf, of i1 j1 i2 j2 L0 k b] assms(2-) dims
  obtain t' where "applySpring i1 j1 i2 j2 L0 k b t = Some t'" "frame t t'"
    "gridTotal (forces t') = gridTotal (forces t)"
    by auto
  with assms(1) show ?thesis
    by (auto simp: keepsTotal_def intro: frame_trans)
qed

lemma structuralSprings_keepsTotal:
  assumes "wellFormed s"
  shows "\<exists>t. structuralSprings s = Some t \<and> keepsTotal s t"
  unfolding structuralSprings_def
proof (rule forEach_invariant [where P = "keepsTotal s"])
  show "keepsTotal s s"
    using assms by (simp add: keepsTotal_def frame_refl)
next
  fix i t
  assume i: "i \<in> set [0..<rows s]" and t: "keepsTotal s t"
  show "\<exists>t'. forEach [0..<cols s] (\<lambda>j t. do {
           t1 \<leftarrow> (if j < cols s - 1
                  then applySpring i j i (j + 1)
                         structuralRestLength structuralK structuralDamping t
                  else Some t);
           if i < rows s - 1
           then applySpring i j (i + 1) j
                  structuralRestLength structuralK structuralDamping t1
           else Some t1
         }) t = Some t' \<and> keepsTotal s t'"
  proof (rule forEach_invariant [where P = "keepsTotal s", OF t])
    fix j u
    assume j: "j \<in> set [0..<cols s]" and u: "keepsTotal s u"
    have "\<exists>u1. (if j < cols s - 1
                 then applySpring i j i (j + 1)
                        structuralRestLength structuralK structuralDamping u
                 else Some u) = Some u1 \<and> keepsTotal s u1"
      using applySpring_keepsTotal [OF u, of i j i "j + 1"] i j u by auto
    then obtain u1 where u1: "(if j < cols s - 1
                 then applySpring i j i (j + 1)
                        structuralRestLength structuralK structuralDamping u
                 else Some u) = Some u1" "keepsTotal s u1"
      by blast
    have "\<exists>u2. (if i < rows s - 1
                 then applySpring i j (i + 1) j
                        structuralRestLength structuralK structuralDamping u1
                 else Some u1) = Some u2 \<and> keepsTotal s u2"
      using applySpring_keepsTotal [OF u1(2), of i j "i + 1" j] i j u1(2) by auto
    with u1(1) show "\<exists>t'. do {
           t1 \<leftarrow> (if j < cols s - 1
                  then applySpring i j i (j + 1)
                         structuralRestLength structuralK structuralDamping u
                  else Some u);
           if i < rows s - 1
           then applySpring i j (i + 1) j
                  structuralRestLength structuralK structuralDamping t1
           else Some t1
         } = Some t' \<and> keepsTotal s t'"
      by simp
  qed
qed

lemma shearSprings_keepsTotal:
  assumes "wellFormed s"
  shows "\<exists>t. shearSprings s = Some t \<and> keepsTotal s t"
  unfolding shearSprings_def
proof (rule forEach_invariant [where P = "keepsTotal s"])
  show "keepsTotal s s"
    using assms by (simp add: keepsTotal_def frame_refl)
next
  fix i t
  assume i: "i \<in> set [0..<rows s - 1]" and t: "keepsTotal s t"
  show "\<exists>t'. forEach [0..<cols s - 1] (\<lambda>j t. do {
           t1 \<leftarrow> applySpring i j (i + 1) (j + 1) shearRestLength shearK shearDamping t;
           applySpring (i + 1) j i (j + 1) shearRestLength shearK shearDamping t1
         }) t = Some t' \<and> keepsTotal s t'"
  proof (rule forEach_invariant [where P = "keepsTotal s", OF t])
    fix j u
    assume j: "j \<in> set [0..<cols s - 1]" and u: "keepsTotal s u"
    from i j have b: "i < rows s" "i + 1 < rows s" "j < cols s" "j + 1 < cols s"
      by auto
    from applySpring_keepsTotal [OF u b(1) b(3) b(2) b(4)]
    obtain u1 where u1:
      "applySpring i j (i + 1) (j + 1) shearRestLength shearK shearDamping u = Some u1"
      "keepsTotal s u1"
      by blast
    from applySpring_keepsTotal [OF u1(2) b(2) b(3) b(1) b(4)]
    have "\<exists>u2. applySpring (i + 1) j i (j + 1) shearRestLength shearK shearDamping u1 = Some u2
            \<and> keepsTotal s u2"
      by blast
    with u1(1) show "\<exists>t'. do {
           t1 \<leftarrow> applySpring i j (i + 1) (j + 1) shearRestLength shearK shearDamping u;
           applySpring (i + 1) j i (j + 1) shearRestLength shearK shearDamping t1
         } = Some t' \<and> keepsTotal s t'"
      by simp
  qed
qed

lemma zeroForces_frame:
  assumes "wellFormed s"
  shows "\<exists>t. zeroForces s = Some t \<and> frame s t \<and>
           (\<forall>i j. i < rows s \<longrightarrow> j < cols s \<longrightarrow> forces t ! i ! j = (0, 0))"
  unfolding zeroForces_def
proof (rule grid_loop [where I = "frame s" and U = "\<lambda>i j t. True"
         and R = "\<lambda>i j t. forces t ! i ! j = (0, 0)"])
  show "frame s s"
    using assms by (rule frame_refl)
next
  fix i j t
  assume i: "i < rows s" and j: "j < cols s" and t: "frame s t"
  then have c: "cell (forces t) i j = Some (forces t ! i ! j)"
    by (intro wellFormed_cells) (simp_all add: frame_def)
  have m: "modifyCell (forces t) i j (\<lambda>_. (0, 0)) = Some (setCell (forces t) i j (0, 0))"
    by (rule modifyCell_Some [OF c])
  have "frame s (t\<lparr>forces := setCell (forces t) i j (0, 0)\<rparr>)"
    by (intro frame_forces_update t gridShape_setCell frame_forces)
  then show "\<exists>t'. do {
           f \<leftarrow> modifyCell (forces t) i j (\<lambda>_. (0, 0));
           Some (t\<lparr>forces := f\<rparr>)
         } = Some t' \<and> frame s t' \<and> forces t' ! i ! j = (0, 0) \<and>
         (\<forall>i' j'. (i', j') \<noteq> (i, j) \<longrightarrow> i' < rows s \<longrightarrow> j' < cols s \<longrightarrow>
            (True \<longrightarrow> True) \<and> (forces t ! i' ! j' = (0, 0) \<longrightarrow> forces t' ! i' ! j' = (0, 0)))"
    by (simp add: m nth_setCell [OF c])
qed simp

lemma zeroForces_total:
  assumes "wellFormed s"
  shows "\<exists>t. zeroForces s = Some t \<and> frame s t \<and> gridTotal (forces t) = (0, 0)"
proof -
  from zeroForces_frame [OF assms] obtain t where t: "zeroForces s = Some t" "frame s t"
    "\<And>i j. i < rows s \<Longrightarrow> j < cols s \<Longrightarrow> forces t ! i ! j = (0, 0)"
    by blast
  from t(2) have "gridShape (rows s) (cols s) (forces t)"
    by (rule frame_forces)
  then have "gridTotal (forces t) = (0, 0)"
    by (intro gridTotal_zero t(3)) (auto simp: gridShape_def list_all_length)
  with t show ?thesis by blast
qed

lemma calculateForces_total:
  assumes "wellFormed s"
  shows "\<exists>t. calculateForces task s = Some t \<and> frame s t \<and> gridTotal (forces t) = (0, 0)"
proof -
  from zeroForces_total [OF assms] obtain s1 where s1: "zeroForces s = Some s1" "frame s s1"
    "gridTotal (forces s1) = (0, 0)"
    by blast
  then have wf1: "wellFormed s1"
    by (simp add: frame_def)
  from structuralSprings_keepsTotal [OF wf1] obtain s2 where
    s2: "structuralSprings s1 = Some s2" "keepsTotal s1 s2"
    by blast
  then have wf2: "wellFormed s2"
    by (simp add: keepsTotal_def frame_def)
  from shearSprings_keepsTotal [OF wf2] obtain s3 where
    s3: "shearSprings s2 = Some s3" "keepsTotal s2 s3"
    by blast
  from s1 s2 s3 show ?thesis
    by (auto simp: calculateForces_def keepsTotal_def intro: frame_trans)
qed

lemma initializeGrid_task4: "initializeGrid 600 400 ''4'' r c = Some taskFourGrid"
  by (simp add: initializeGrid_def taskFourGrid_def padding_def modifyCell_def rowAt_def
        elemAt_def setCell_def Let_def eval_nat_numeral)

lemma wellFormed_taskFourGrid: "wellFormed taskFourGrid"
  by (simp add: wellFormed_def gridShape_def taskFourGrid_def)

text \<open>
  Claim C10. After a complete pass of \<^verbatim>\<open>calculateForces\<close> on a well-formed state, for
  every grid size and every task (with or without shear springs), the vector sum of the
  accumulated forces over all mass points is \<open>(0, 0)\<close>.
\<close>

theorem calculateForces_total_force_zero:
  assumes "wellFormed s"
  shows "\<exists>t. calculateForces task s = Some t \<and> gridTotal (forces t) = (0, 0)"
  using calculateForces_total [OF assms, of task] by blast

theorem calculateForces_total_force_zero_witness:
  "\<exists>t. calculateForces ''4'' taskFourGrid = Some t \<and> gridTotal (forces t) = (0, 0)"
  using calculateForces_total_force_zero [of taskFourGrid "''4''"]
  by (simp add: wellFormed_def gridShape_def taskFourGrid_def)

section \<open>The calls made by calculateForces and the rendered edges\<close>

lemma forEach_preserves:
  assumes "forEach xs body s = Some t" "Q s"
      and "\<And>x u u'. body x u = Some u' \<Longrightarrow> Q u \<Longrightarrow> Q u'"
  shows "Q t"
  using assms(1,2)
proof (induction xs arbitrary: s)
  case Nil
  then show ?case by simp
next
  case (Cons x xs)
  then show ?case
    by (auto split: option.splits dest: assms(3))
qed

lemma forEach_concat_map:
  "forEach (concat (map f xs)) body = forEach xs (\<lambda>x. forEach (f x) body)"
proof
  fix s
  show "forEach (concat (map f xs)) body s = forEach xs (\<lambda>x. forEach (f x) body) s"
    by (induction xs arbitrary: s) (auto simp: forEach_append split: option.splits)
qed

lemma forEach_cong:
  "(\<And>x t. x \<in> set xs \<Longrightarrow> body x t = body' x t) \<Longrightarrow> forEach xs body s = forEach xs body' s"
  by (induction xs arbitrary: s) (auto split: option.splits)

lemma forEach_map:
  "forEach (map f xs) body = forEach xs (\<lambda>x. body (f x))"
proof
  fix s
  show "forEach (map f xs) body s = forEach xs (\<lambda>x. body (f x)) s"
    by (induction xs arbitrary: s) (auto split: option.splits)
qed

lemma applySpring_dims:
  "applySpring i1 j1 i2 j2 L0 k b t = Some t' \<Longrightarrow> rows t' = rows t \<and> cols t' = cols t"
  by (auto simp: applySpring_def Let_def split: if_splits Option.bind_splits)

lemma runCall_dims: "runCall call t = Some t' \<Longrightarrow> rows t' = rows t \<and> cols t' = cols t"
  by (auto simp: runCall_def dest: applySpring_dims split: prod.splits)

lemma zeroForces_dims:
  assumes "zeroForces s = Some t"
  shows "rows t = rows s \<and> cols t = cols s"
proof (rule forEach_preserves [OF assms [unfolded zeroForces_def]])
  fix i u u'
  assume "forEach [0..<cols s] (\<lambda>j t. do {
            f \<leftarrow> modifyCell (forces t) i j (\<lambda>_. (0, 0));
            Some (t\<lparr>forces := f\<rparr>)
          }) u = Some u'"
     and "rows u = rows s \<and> cols u = cols s"
  then show "rows u' = rows s \<and> cols u' = cols s"
    by (rule forEach_preserves) (auto split: Option.bind_splits)
qed simp

lemma structuralSprings_calls:
  "structuralSprings s =
     forEach (map (\<lambda>e. (e, structuralRestLength, structuralK, structuralDamping))
                (structuralEdges (rows s) (cols s))) runCall s"
proof -
  have cell: "forEach ((if j < cols s - 1 then [((i, j), (i, j + 1))] else []) @
                       (if i < rows s - 1 then [((i, j), (i + 1, j))] else []))
                (\<lambda>e. runCall (e, structuralRestLength, structuralK, structuralDamping))
              = (\<lambda>t. do {
                  t1 \<leftarrow> (if j < cols s - 1
                         then applySpring i j i (j + 1)
                                structuralRestLength structuralK structuralDamping t
                         else Some t);
                  if i < rows s - 1
                  then applySpring i j (i + 1) j
                         structuralRestLength structuralK structuralDamping t1
                  else Some t1
                })" for i j
    by (rule ext) (auto simp: runCall_def split: option.splits)
  show ?thesis
    by (simp only: structuralSprings_def structuralEdges_def forEach_map forEach_concat_map cell)
qed

lemma shearSprings_calls:
  "shearSprings s =
     forEach (map (\<lambda>e. (e, shearRestLength, shearK, shearDamping))
                (shearEdges (rows s) (cols s))) runCall s"
proof -
  have cell: "forEach [((i, j), (i + 1, j + 1)), ((i + 1, j), (i, j + 1))]
                (\<lambda>e. runCall (e, shearRestLength, shearK, shearDamping))
              = (\<lambda>t. do {
                  t1 \<leftarrow> applySpring i j (i + 1) (j + 1) shearRestLength shearK shearDamping t;
                  applySpring (i + 1) j i (j + 1) shearRestLength shearK shearDamping t1
                })" for i j
    by (rule ext) (auto simp: runCall_def split: option.splits)
  show ?thesis
    by (simp only: shearSprings_def shearEdges_def forEach_map forEach_concat_map cell)
qed

lemma calculateForces_calls:
  "calculateForces task s = do {
     s1 \<leftarrow> zeroForces s;
     forEach (springCalls task (rows s) (cols s)) runCall s1
   }"
proof (cases "zeroForces s")
  case None
  then show ?thesis by (simp add: calculateForces_def)
next
  case (Some s1)
  then have d1: "rows s1 = rows s" "cols s1 = cols s"
    by (simp_all add: zeroForces_dims)
  have d2: "rows s2 = rows s \<and> cols s2 = cols s"
    if "forEach (map (\<lambda>e. (e, structuralRestLength, structuralK, structuralDamping))
                (structuralEdges (rows s) (cols s))) runCall s1 = Some s2" for s2
    using that
    by (rule forEach_preserves) (use d1 runCall_dims in auto)
  show ?thesis
    by (auto simp: calculateForces_def Some structuralSprings_calls shearSprings_calls d1
          springCalls_def forEach_append dest: d2 split: option.splits Option.bind_splits)
qed

lemma drawEdges_springCalls: "drawEdges task r c = map fst (springCalls task r c)"
  by (simp add: drawEdges_def springCalls_def structuralEdges_def shearEdges_def comp_def)

lemma structuralEdges_3_3:
  "structuralEdges 3 3 =
     [((0, 0), (0, 1)), ((0, 0), (1, 0)), ((0, 1), (0, 2)), ((0, 1), (1, 1)), ((0, 2), (1, 2)),
      ((1, 0), (1, 1)), ((1, 0), (2, 0)), ((1, 1), (1, 2)), ((1, 1), (2, 1)), ((1, 2), (2, 2)),
      ((2, 0), (2, 1)), ((2, 1), (2, 2))]"
  by (simp add: structuralEdges_def eval_nat_numeral)

lemma shearEdges_3_3:
  "shearEdges 3 3 =
     [((0, 0), (1, 1)), ((1, 0), (0, 1)), ((0, 1), (1, 2)), ((1, 1), (0, 2)),
      ((1, 0), (2, 1)), ((2, 0), (1, 1)), ((1, 1), (2, 2)), ((2, 1), (1, 2))]"
  by (simp add: shearEdges_def eval_nat_numeral)

text \<open>
  Claim C9. For a 3 by 3 grid, one pass of \<^verbatim>\<open>calculateForces\<close> zeroes the forces and then
  calls \<^verbatim>\<open>applySpring\<close> on the 12 structural edges (each right-neighbour and each
  down-neighbour pair) and, when the task enables shear springs (task 3 and above, so for
  task 4), on the 8 diagonals of the four 2 by 2 blocks as well, 20 calls in all.
  \<^verbatim>\<open>drawEdges\<close> renders the same 12, respectively 20, edges.
\<close>

theorem calculateForces_3x3_edges:
  assumes "rows s = 3" and "cols s = 3"
  shows "calculateForces task s = do {
           s1 \<leftarrow> zeroForces s;
           forEach (springCalls task 3 3) runCall s1
         } \<and>
         springCalls task 3 3 =
           map (\<lambda>e. (e, structuralRestLength, structuralK, structuralDamping))
             [((0, 0), (0, 1)), ((0, 0), (1, 0)), ((0, 1), (0, 2)), ((0, 1), (1, 1)),
              ((0, 2), (1, 2)), ((1, 0), (1, 1)), ((1, 0), (2, 0)), ((1, 1), (1, 2)),
              ((1, 1), (2, 1)), ((1, 2), (2, 2)), ((2, 0), (2, 1)), ((2, 1), (2, 2))] @
           (if task \<ge> ''3''
            then map (\<lambda>e. (e, shearRestLength, shearK, shearDamping))
              [((0, 0), (1, 1)), ((1, 0), (0, 1)), ((0, 1), (1, 2)), ((1, 1), (0, 2)),
               ((1, 0), (2, 1)), ((2, 0), (1, 1)), ((1, 1), (2, 2)), ((2, 1), (1, 2))]
            else []) \<and>
         length (springCalls task 3 3) = (if task \<ge> ''3'' then 20 else 12) \<and>
         drawEdges task 3 3 = map fst (springCalls task 3 3) \<and>
         distinct (drawEdges task 3 3)"
proof -
  have calls: "springCalls task 3 3 =
           map (\<lambda>e. (e, structuralRestLength, structuralK, structuralDamping))
             [((0, 0), (0, 1)), ((0, 0), (1, 0)), ((0, 1), (0, 2)), ((0, 1), (1, 1)),
              ((0, 2), (1, 2)), ((1, 0), (1, 1)), ((1, 0), (2, 0)), ((1, 1), (1, 2)),
              ((1, 1), (2, 1)), ((1, 2), (2, 2)), ((2, 0), (2, 1)), ((2, 1), (2, 2))] @
           (if task \<ge> ''3''
            then map (\<lambda>e. (e, shearRestLength, shearK, shearDamping))
              [((0, 0), (1, 1)), ((1, 0), (0, 1)), ((0, 1), (1, 2)), ((1, 1), (0, 2)),
               ((1, 0), (2, 1)), ((2, 0), (1, 1)), ((1, 1), (2, 2)), ((2, 1), (1, 2))]
            else [])"
    unfolding springCalls_def structuralEdges_3_3 shearEdges_3_3 ..
  have run: "calculateForces task s = do {
           s1 \<leftarrow> zeroForces s;
           forEach (springCalls task 3 3) runCall s1
         }"
    using calculateForces_calls [of task s] assms by simp
  have len: "length (springCalls task 3 3) = (if task \<ge> ''3'' then 20 else 12)"
    unfolding calls by simp
  have draw: "drawEdges task 3 3 = map fst (springCalls task 3 3)"
    by (rule drawEdges_springCalls)
  have edges: "map fst (springCalls task 3 3) =
             [((0, 0), (0, 1)), ((0, 0), (1, 0)), ((0, 1), (0, 2)), ((0, 1), (1, 1)),
              ((0, 2), (1, 2)), ((1, 0), (1, 1)), ((1, 0), (2, 0)), ((1, 1), (1, 2)),
              ((1, 1), (2, 1)), ((1, 2), (2, 2)), ((2, 0), (2, 1)), ((2, 1), (2, 2))] @
           (if task \<ge> ''3''
            then [((0, 0), (1, 1)), ((1, 0), (0, 1)), ((0, 1), (1, 2)), ((1, 1), (0, 2)),
                  ((1, 0), (2, 1)), ((2, 0), (1, 1)), ((1, 1), (2, 2)), ((2, 1), (1, 2))]
            else [])"
    unfolding calls by (cases "task \<ge> ''3''") simp_all
  have "distinct (map fst (springCalls task 3 3))"
    unfolding edges by (cases "task \<ge> ''3''") simp_all
  with run calls len draw show ?thesis
    by simp
qed

theorem calculateForces_3x3_edges_witness:
  "calculateForces ''4'' taskFourGrid = do {
     s1 \<leftarrow> zeroForces taskFourGrid;
     forEach (springCalls ''4'' 3 3) runCall s1
   } \<and>
   length (springCalls ''4'' 3 3) = 20 \<and>
   length (drawEdges ''4'' 3 3) = 20 \<and>
   drawEdges ''4'' 3 3 = map fst (springCalls ''4'' 3 3)"
proof -
  have "rows taskFourGrid = 3" and "cols taskFourGrid = 3"
    by (simp_all add: taskFourGrid_def)
  from calculateForces_3x3_edges [OF this, of "''4''"] show ?thesis
    by simp
qed

section \<open>The integrators\<close>

lemma nth_setCell_other:
  "(i', j') \<noteq> (i, j) \<Longrightarrow> setCell g i j w ! i' ! j' = g ! i' ! j'"
  by (cases "i < length g"; cases "i' = i") (auto simp: setCell_def list_update_beyond)

lemma nth_setCell_same:
  "cell g i j = Some v \<Longrightarrow> setCell g i j w ! i ! j = w"
  by (simp add: nth_setCell)

lemma setCell_setCell: "setCell (setCell g i j a) i j b = setCell g i j b"
  by (cases "i < length g") (simp_all add: setCell_def list_update_beyond)

lemma wellFormed_updates:
  assumes "wellFormed t"
  shows "wellFormed (t\<lparr>velocities := setCell (velocities t) i j v,
                       positions := setCell (positions t) i j p\<rparr>)"
    and "wellFormed (t\<lparr>prevPositions := setCell (prevPositions t) i j q,
                       positions := setCell (positions t) i j p,
                       velocities := setCell (velocities t) i j v\<rparr>)"
    and "wellFormed (t\<lparr>prevPositions := setCell (prevPositions t) i j q\<rparr>)"
    and "wellFormed (t\<lparr>positions := setCell (positions t) i j p\<rparr>)"
  using assms by (simp_all add: wellFormed_def gridShape_setCell)

lemma eulerCell_in_range:
  assumes wf: "wellFormed t" and ij: "i < rows t" "j < cols t"
  shows "eulerCell i j t =
           Some (t\<lparr>velocities := setCell (velocities t) i j
                      (vadd (velocities t ! i ! j) (vscale timeStep (forces t ! i ! j))),
                   positions := setCell (positions t) i j
                      (vadd (positions t ! i ! j)
                         (vscale timeStep
                            (vadd (velocities t ! i ! j)
                               (vscale timeStep (forces t ! i ! j)))))\<rparr>)"
proof -
  note c = wellFormed_cells [OF wf ij]
  have m1: "modifyCell (velocities t) i j h = Some (setCell (velocities t) i j (h (velocities t ! i ! j)))" for h
    by (rule modifyCell_Some [OF c(2)])
  have m2: "modifyCell (positions t) i j h = Some (setCell (positions t) i j (h (positions t ! i ! j)))" for h
    by (rule modifyCell_Some [OF c(1)])
  have r: "cell (setCell (velocities t) i j w) i j = Some w" for w
    by (rule cell_update_same [OF c(2)])
  show ?thesis
    unfolding eulerCell_def
    by (simp add: c(3) m1 m2 r vadd_def vscale_def mult.commute)
qed

lemma verletCell_in_range:
  assumes wf: "wellFormed t" and ij: "i < rows t" "j < cols t"
  shows "verletCell width height i j t =
           Some (t\<lparr>prevPositions := setCell (prevPositions t) i j (positions t ! i ! j),
                   positions := setCell (positions t) i j
                      (clampPoint width height
                         (verletNext (positions t ! i ! j) (prevPositions t ! i ! j)
                            (forces t ! i ! j))),
                   velocities := setCell (velocities t) i j
                      (verletVelocity (positions t ! i ! j) (prevPositions t ! i ! j)
                            (forces t ! i ! j))\<rparr>)"
proof -
  note c = wellFormed_cells [OF wf ij]
  have m1: "modifyCell (velocities t) i j h = Some (setCell (velocities t) i j (h (velocities t ! i ! j)))" for h
    by (rule modifyCell_Some [OF c(2)])
  have m2: "modifyCell (positions t) i j h = Some (setCell (positions t) i j (h (positions t ! i ! j)))" for h
    by (rule modifyCell_Some [OF c(1)])
  have m3: "modifyCell (prevPositions t) i j h = Some (setCell (prevPositions t) i j (h (prevPositions t ! i ! j)))" for h
    by (rule modifyCell_Some [OF c(4)])
  have m4: "modifyCell (setCell (positions t) i j w) i j h
              = Some (setCell (positions t) i j (h w))" for h w
    using modifyCell_Some [OF cell_update_same [OF c(1)], of w h]
    by (simp add: setCell_setCell)
  show ?thesis
    unfolding verletCell_def
    by (simp add: c m1 m2 m3 m4 Let_def clampPoint_def verletNext_def verletVelocity_def)
qed

lemma eulerLoop:
  assumes wf: "wellFormed c"
  shows "\<exists>t. forEach [0..<rows c] (\<lambda>i. forEach [0..<cols c] (eulerCell i)) c = Some t \<and>
           (wellFormed t \<and> rows t = rows c \<and> cols t = cols c \<and>
            forces t = forces c \<and> prevPositions t = prevPositions c) \<and>
           (\<forall>i j. i < rows c \<longrightarrow> j < cols c \<longrightarrow>
              velocities t ! i ! j =
                vadd (velocities c ! i ! j) (vscale timeStep (forces c ! i ! j)) \<and>
              positions t ! i ! j =
                vadd (positions c ! i ! j) (vscale timeStep (velocities t ! i ! j)))"
proof -
  define I where "I t \<longleftrightarrow> wellFormed t \<and> rows t = rows c \<and> cols t = cols c \<and>
            forces t = forces c \<and> prevPositions t = prevPositions c" for t :: state
  define U where "U i j t \<longleftrightarrow> positions t ! i ! j = positions c ! i ! j \<and>
                  velocities t ! i ! j = velocities c ! i ! j" for i j and t :: state
  define R where "R i j t \<longleftrightarrow>
              velocities t ! i ! j =
                vadd (velocities c ! i ! j) (vscale timeStep (forces c ! i ! j)) \<and>
              positions t ! i ! j =
                vadd (positions c ! i ! j) (vscale timeStep (velocities t ! i ! j))" for i j and t :: state
  have "\<exists>t. forEach [0..<rows c] (\<lambda>i. forEach [0..<cols c] (eulerCell i)) c = Some t \<and> I t \<and>
           (\<forall>i j. i < rows c \<longrightarrow> j < cols c \<longrightarrow> R i j t)"
  proof (rule grid_loop [where U = U])
    show "I c"
      using wf by (simp add: I_def)
  next
    show "U i j c" for i j
      by (simp add: U_def)
  next
    fix i j t
    assume i: "i < rows c" and j: "j < cols c" and I: "I t" and U: "U i j t"
    from I have wft: "wellFormed t" and ij: "i < rows t" "j < cols t"
      using i j by (simp_all add: I_def)
    note cs = wellFormed_cells [OF wft ij]
    let ?v = "vadd (velocities c ! i ! j) (vscale timeStep (forces c ! i ! j))"
    let ?p = "vadd (positions c ! i ! j) (vscale timeStep ?v)"
    let ?t' = "t\<lparr>velocities := setCell (velocities t) i j ?v,
                  positions := setCell (positions t) i j ?p\<rparr>"
    have run: "eulerCell i j t = Some ?t'"
      using eulerCell_in_range [OF wft ij] I U by (simp add: I_def U_def)
    have I': "I ?t'"
      using wellFormed_updates(1) [OF wft] I by (simp add: I_def)
    have R': "R i j ?t'"
      by (simp add: R_def nth_setCell_same [OF cs(1)] nth_setCell_same [OF cs(2)])
    have keepU: "U i' j' ?t'" if "(i', j') \<noteq> (i, j)" "U i' j' t" for i' j'
      using nth_setCell_other [OF that(1)] that(2) by (simp add: U_def)
    have keepR: "R i' j' ?t'" if "(i', j') \<noteq> (i, j)" "R i' j' t" for i' j'
      using nth_setCell_other [OF that(1)] that(2) by (simp add: R_def)
    show "\<exists>t'. eulerCell i j t = Some t' \<and> I t' \<and> R i j t' \<and>
            (\<forall>i' j'. (i', j') \<noteq> (i, j) \<longrightarrow> i' < rows c \<longrightarrow> j' < cols c \<longrightarrow>
               (U i' j' t \<longrightarrow> U i' j' t') \<and> (R i' j' t \<longrightarrow> R i' j' t'))"
      using run I' R' keepU keepR by blast
  qed
  then show ?thesis
    unfolding I_def R_def by blast
qed

lemma verletLoop:
  assumes wf: "wellFormed c"
  shows "\<exists>t. forEach [0..<rows c] (\<lambda>i. forEach [0..<cols c] (verletCell width height i)) c
             = Some t \<and>
           (wellFormed t \<and> rows t = rows c \<and> cols t = cols c \<and> forces t = forces c) \<and>
           (\<forall>i j. i < rows c \<longrightarrow> j < cols c \<longrightarrow>
              positions t ! i ! j =
                clampPoint width height
                  (verletNext (positions c ! i ! j) (prevPositions c ! i ! j) (forces c ! i ! j)) \<and>
              prevPositions t ! i ! j = positions c ! i ! j \<and>
              velocities t ! i ! j =
                verletVelocity (positions c ! i ! j) (prevPositions c ! i ! j) (forces c ! i ! j))"
proof -
  define I where "I t \<longleftrightarrow> wellFormed t \<and> rows t = rows c \<and> cols t = cols c \<and>
            forces t = forces c" for t :: state
  define U where "U i j t \<longleftrightarrow> positions t ! i ! j = positions c ! i ! j \<and>
                  prevPositions t ! i ! j = prevPositions c ! i ! j" for i j and t :: state
  define R where "R i j t \<longleftrightarrow>
              positions t ! i ! j =
                clampPoint width height
                  (verletNext (positions c ! i ! j) (prevPositions c ! i ! j) (forces c ! i ! j)) \<and>
              prevPositions t ! i ! j = positions c ! i ! j \<and>
              velocities t ! i ! j =
                verletVelocity (positions c ! i ! j) (prevPositions c ! i ! j) (forces c ! i ! j)"
    for i j and t :: state
  have "\<exists>t. forEach [0..<rows c] (\<lambda>i. forEach [0..<cols c] (verletCell width height i)) c
              = Some t \<and> I t \<and> (\<forall>i j. i < rows c \<longrightarrow> j < cols c \<longrightarrow> R i j t)"
  proof (rule grid_loop [where U = U])
    show "I c"
      using wf by (simp add: I_def)
  next
    show "U i j c" for i j
      by (simp add: U_def)
  next
    fix i j t
    assume i: "i < rows c" and j: "j < cols c" and I: "I t" and U: "U i j t"
    from I have wft: "wellFormed t" and ij: "i < rows t" "j < cols t"
      using i j by (simp_all add: I_def)
    note cs = wellFormed_cells [OF wft ij]
    let ?a = "forces c ! i ! j"
    let ?p = "positions c ! i ! j"
    let ?pp = "prevPositions c ! i ! j"
    let ?t' = "t\<lparr>prevPositions := setCell (prevPositions t) i j ?p,
                  positions := setCell (positions t) i j
                     (clampPoint width height (verletNext ?p ?pp ?a)),
                  velocities := setCell (velocities t) i j (verletVelocity ?p ?pp ?a)\<rparr>"
    have run: "verletCell width height i j t = Some ?t'"
      using verletCell_in_range [OF wft ij, of width height] I U by (simp add: I_def U_def)
    have I': "I ?t'"
      using wellFormed_updates(2) [OF wft] I by (simp add: I_def)
    have R': "R i j ?t'"
      by (simp add: R_def nth_setCell_same [OF cs(1)] nth_setCell_same [OF cs(2)]
            nth_setCell_same [OF cs(4)])
    have keepU: "U i' j' ?t'" if "(i', j') \<noteq> (i, j)" "U i' j' t" for i' j'
      using nth_setCell_other [OF that(1)] that(2) by (simp add: U_def)
    have keepR: "R i' j' ?t'" if "(i', j') \<noteq> (i, j)" "R i' j' t" for i' j'
      using nth_setCell_other [OF that(1)] that(2) by (simp add: R_def)
    show "\<exists>t'. verletCell width height i j t = Some t' \<and> I t' \<and> R i j t' \<and>
            (\<forall>i' j'. (i', j') \<noteq> (i, j) \<longrightarrow> i' < rows c \<longrightarrow> j' < cols c \<longrightarrow>
               (U i' j' t \<longrightarrow> U i' j' t') \<and> (R i' j' t \<longrightarrow> R i' j' t'))"
      using run I' R' keepU keepR by blast
  qed
  then show ?thesis
    unfolding I_def R_def by blast
qed

lemma frame_wellFormed: "frame s c \<Longrightarrow> wellFormed c"
  by (simp add: frame_def)

lemma updatePositions_cells:
  assumes wf: "wellFormed s"
  shows "\<exists>c t. calculateForces task s = Some c \<and> updatePositions task s = Some t \<and>
           wellFormed t \<and> rows t = rows s \<and> cols t = cols s \<and>
           forces t = forces c \<and> prevPositions t = prevPositions s \<and>
           (\<forall>i j. i < rows s \<longrightarrow> j < cols s \<longrightarrow>
              velocities t ! i ! j =
                vadd (velocities s ! i ! j) (vscale timeStep (forces c ! i ! j)) \<and>
              positions t ! i ! j =
                vadd (positions s ! i ! j) (vscale timeStep (velocities t ! i ! j)))"
proof -
  from calculateForces_total [OF wf, of task] obtain c where
    c: "calculateForces task s = Some c" "frame s c"
    by blast
  from eulerLoop [OF frame_wellFormed [OF c(2)]] obtain t where
    t: "forEach [0..<rows c] (\<lambda>i. forEach [0..<cols c] (eulerCell i)) c = Some t"
       "wellFormed t" "rows t = rows c" "cols t = cols c"
       "forces t = forces c" "prevPositions t = prevPositions c"
       "\<And>i j. i < rows c \<Longrightarrow> j < cols c \<Longrightarrow>
              velocities t ! i ! j =
                vadd (velocities c ! i ! j) (vscale timeStep (forces c ! i ! j)) \<and>
              positions t ! i ! j =
                vadd (positions c ! i ! j) (vscale timeStep (velocities t ! i ! j))"
    by blast
  have run: "updatePositions task s = Some t"
    by (simp add: updatePositions_def c(1) t(1))
  from c(2) have eqs: "rows c = rows s" "cols c = cols s" "positions c = positions s"
    "velocities c = velocities s" "prevPositions c = prevPositions s"
    by (simp_all add: frame_def)
  show ?thesis
    using c(1) run t(2-) unfolding eqs by blast
qed

lemma updatePosVerlet_cells:
  assumes wf: "wellFormed s"
  shows "\<exists>c t. calculateForces task s = Some c \<and>
           updatePosVerlet width height task s = Some t \<and>
           wellFormed t \<and> rows t = rows s \<and> cols t = cols s \<and> forces t = forces c \<and>
           (\<forall>i j. i < rows s \<longrightarrow> j < cols s \<longrightarrow>
              positions t ! i ! j =
                clampPoint width height
                  (verletNext (positions s ! i ! j) (prevPositions s ! i ! j) (forces c ! i ! j)) \<and>
              prevPositions t ! i ! j = positions s ! i ! j \<and>
              velocities t ! i ! j =
                verletVelocity (positions s ! i ! j) (prevPositions s ! i ! j) (forces c ! i ! j))"
proof -
  from calculateForces_total [OF wf, of task] obtain c where
    c: "calculateForces task s = Some c" "frame s c"
    by blast
  from verletLoop [OF frame_wellFormed [OF c(2)], of width height] obtain t where
    t: "forEach [0..<rows c] (\<lambda>i. forEach [0..<cols c] (verletCell width height i)) c = Some t"
       "wellFormed t" "rows t = rows c" "cols t = cols c" "forces t = forces c"
       "\<And>i j. i < rows c \<Longrightarrow> j < cols c \<Longrightarrow>
              positions t ! i ! j =
                clampPoint width height
                  (verletNext (positions c ! i ! j) (prevPositions c ! i ! j) (forces c ! i ! j)) \<and>
              prevPositions t ! i ! j = positions c ! i ! j \<and>
              velocities t ! i ! j =
                verletVelocity (positions c ! i ! j) (prevPositions c ! i ! j) (forces c ! i ! j)"
    by blast
  have run: "updatePosVerlet width height task s = Some t"
    by (simp add: updatePosVerlet_def c(1) t(1))
  from c(2) have eqs: "rows c = rows s" "cols c = cols s" "positions c = positions s"
    "velocities c = velocities s" "prevPositions c = prevPositions s"
    by (simp_all add: frame_def)
  show ?thesis
    using c(1) run t(2-) unfolding eqs by blast
qed

lemma clampPoint_inBounds:
  assumes "padding \<le> width - padding" "padding \<le> height - padding"
  shows "inBounds width height (clampPoint width height q)"
  using assms by (simp add: inBounds_def clampPoint_def)

lemma clampPoint_id: "inBounds width height q \<Longrightarrow> clampPoint width height q = q"
  by (simp add: inBounds_def clampPoint_def prod_eq_iff)

lemma drag_in_range:
  assumes wf: "wellFormed s" and d: "di < rows s" "dj < cols s"
  shows "\<exists>t. drag width height di dj ex ey s = Some t \<and> wellFormed t \<and>
           rows t = rows s \<and> cols t = cols s \<and>
           positions t = setCell (positions s) di dj (clampPoint width height (ex, ey))"
proof -
  note cs = wellFormed_cells [OF wf d]
  let ?d = "clampPoint width height (ex, ey)"
  let ?pos2 = "setCell (positions s) di dj ?d"
  let ?s0 = "s\<lparr>positions := ?pos2\<rparr>"
  define I where "I t \<longleftrightarrow> wellFormed t \<and> rows t = rows s \<and> cols t = cols s \<and>
                    positions t = ?pos2" for t :: state
  have m1: "modifyCell (positions s) di dj (\<lambda>_. (ex, ey))
              = Some (setCell (positions s) di dj (ex, ey))"
    by (rule modifyCell_Some [OF cs(1)])
  have m2: "modifyCell (setCell (positions s) di dj (ex, ey)) di dj h
              = Some (setCell (positions s) di dj (h (ex, ey)))" for h
    using modifyCell_Some [OF cell_update_same [OF cs(1)], of "(ex, ey)" h]
    by (simp add: setCell_setCell)
  have c2: "cell ?pos2 di dj = Some ?d"
    by (rule cell_update_same [OF cs(1)])
  have I0: "I ?s0"
    using wellFormed_updates(4) [OF wf] by (simp add: I_def)
  have body: "\<exists>t'. do {
           r \<leftarrow> rowAt (positions t) i;
           if elemAt r j \<noteq> None \<and> (i, j) = (di, dj)
           then do {
             prev1 \<leftarrow> modifyCell (prevPositions t) i j (\<lambda>_. ?d);
             Some (t\<lparr>prevPositions := prev1\<rparr>)
           }
           else Some t
         } = Some t' \<and> I t'"
    if "i < rows s" "j < cols s" "I t" for i j t
  proof -
    from that have wft: "wellFormed t" and ij: "i < rows t" "j < cols t"
      by (simp_all add: I_def)
    note ct = wellFormed_cells [OF wft ij]
    have I': "I (t\<lparr>prevPositions := setCell (prevPositions t) i j ?d\<rparr>)"
      using wellFormed_updates(3) [OF wft] that(3) by (simp add: I_def)
    have m: "modifyCell (prevPositions t) i j (\<lambda>_. ?d)
               = Some (setCell (prevPositions t) i j ?d)"
      by (rule modifyCell_Some [OF ct(4)])
    have r: "rowAt (positions t) i = Some (positions t ! i)"
      by (rule rowAt_of_cell [OF ct(1)])
    have e: "elemAt (positions t ! i) j \<noteq> None"
      by (simp add: elemAt_of_cell [OF ct(1)])
    show ?thesis
      using I' m r e that(3) by auto
  qed
  let ?loop = "forEach [0..<rows s] (\<lambda>i. forEach [0..<cols s] (\<lambda>j t. do {
           r \<leftarrow> rowAt (positions t) i;
           if elemAt r j \<noteq> None \<and> (i, j) = (di, dj)
           then do {
             prev1 \<leftarrow> modifyCell (prevPositions t) i j (\<lambda>_. ?d);
             Some (t\<lparr>prevPositions := prev1\<rparr>)
           }
           else Some t
         }))"
  have "\<exists>t. ?loop ?s0 = Some t \<and> I t"
  proof (rule forEach_invariant [where P = I, OF I0])
    fix i t
    assume "i \<in> set [0..<rows s]" and "I t"
    then show "\<exists>t'. forEach [0..<cols s] (\<lambda>j t. do {
           r \<leftarrow> rowAt (positions t) i;
           if elemAt r j \<noteq> None \<and> (i, j) = (di, dj)
           then do {
             prev1 \<leftarrow> modifyCell (prevPositions t) i j (\<lambda>_. ?d);
             Some (t\<lparr>prevPositions := prev1\<rparr>)
           }
           else Some t
         }) t = Some t' \<and> I t'"
      by (intro forEach_invariant [where P = I] body) simp_all
  qed
  then obtain t where t: "?loop ?s0 = Some t" "I t"
    by blast
  have cp: "(max padding (min (width - padding) (fst (ex, ey))),
             max padding (min (height - padding) (snd (ex, ey)))) = ?d"
    by (simp add: clampPoint_def)
  have "drag width height di dj ex ey s = Some t"
    unfolding drag_def by (simp only: m1 m2 cp c2 Option.bind.simps t(1))
  with t(2) show ?thesis
    by (simp add: I_def)
qed

text \<open>
  Claim C5. One call of \<^verbatim>\<open>updatePositions\<close> on a well-formed state computes the forces
  and then, for every mass point, adds force times \<open>timeStep\<close> to the velocity and adds the
  new velocity times \<open>timeStep\<close> to the position. The position is exactly that sum: nothing
  clamps it. \<^verbatim>\<open>prevPositions\<close> is unchanged.
\<close>

theorem updatePositions_semi_implicit_euler:
  assumes "wellFormed s"
  shows "\<exists>c t. calculateForces task s = Some c \<and> updatePositions task s = Some t \<and>
           rows t = rows s \<and> cols t = cols s \<and>
           forces t = forces c \<and> prevPositions t = prevPositions s \<and>
           (\<forall>i j. i < rows s \<longrightarrow> j < cols s \<longrightarrow>
              velocities t ! i ! j =
                vadd (velocities s ! i ! j) (vscale timeStep (forces c ! i ! j)) \<and>
              positions t ! i ! j =
                vadd (positions s ! i ! j) (vscale timeStep (velocities t ! i ! j)))"
  using updatePositions_cells [OF assms, of task] by blast

text \<open>An Euler step that carries a point out of the padded rectangle.\<close>

lemma updatePositions_driftingPoint:
  "updatePositions ''5'' driftingPoint =
     Some (driftingPoint\<lparr>forces := [[(0, 0)]], positions := [[(34, 50)]]\<rparr>)"
  by (simp add: updatePositions_def calculateForces_def zeroForces_def structuralSprings_def
        shearSprings_def eulerCell_def driftingPoint_def modifyCell_def cell_def rowAt_def
        elemAt_def setCell_def timeStep_def)

theorem updatePositions_semi_implicit_euler_witness:
  "\<exists>c t. calculateForces ''5'' driftingPoint = Some c \<and>
          updatePositions ''5'' driftingPoint = Some t \<and>
          rows t = 1 \<and> cols t = 1 \<and>
          forces t = forces c \<and> prevPositions t = [[(60, 50)]] \<and>
          velocities t ! 0 ! 0 = vadd (- 1000, 0) (vscale timeStep (forces c ! 0 ! 0)) \<and>
          positions t ! 0 ! 0 = vadd (50, 50) (vscale timeStep (velocities t ! 0 ! 0)) \<and>
          positions t ! 0 ! 0 = (34, 50) \<and>
          \<not> padding \<le> fst (positions t ! 0 ! 0)"
proof -
  have "wellFormed driftingPoint"
    by (simp add: wellFormed_def gridShape_def driftingPoint_def)
  from updatePositions_semi_implicit_euler [OF this, of "''5''"] obtain c t where
    ct: "calculateForces ''5'' driftingPoint = Some c"
        "updatePositions ''5'' driftingPoint = Some t"
        "rows t = rows driftingPoint" "cols t = cols driftingPoint"
        "forces t = forces c" "prevPositions t = prevPositions driftingPoint"
        "\<And>i j. i < rows driftingPoint \<Longrightarrow> j < cols driftingPoint \<Longrightarrow>
           velocities t ! i ! j =
             vadd (velocities driftingPoint ! i ! j) (vscale timeStep (forces c ! i ! j)) \<and>
           positions t ! i ! j =
             vadd (positions driftingPoint ! i ! j) (vscale timeStep (velocities t ! i ! j))"
    by blast
  from ct(2) have t: "t = driftingPoint\<lparr>forces := [[(0, 0)]], positions := [[(34, 50)]]\<rparr>"
    by (simp add: updatePositions_driftingPoint)
  have "positions t ! 0 ! 0 = (34, 50)" and "\<not> padding \<le> fst (positions t ! 0 ! 0)"
    by (simp_all add: t padding_def)
  with ct(1-6) ct(7) [of 0 0] show ?thesis
    by (simp add: driftingPoint_def)
qed

text \<open>
  Claim C6, as amended. When the padded rectangle is not empty, that is
  \<open>padding \<le> width - padding\<close> and \<open>padding \<le> height - padding\<close>, every mass point lies
  in it after a Verlet step on a well-formed state, and so does the position that the drag
  handler writes for any pointer coordinates.
\<close>

theorem verlet_and_drag_stay_in_bounds:
  assumes wf: "wellFormed s"
      and w: "padding \<le> width - padding"
      and h: "padding \<le> height - padding"
  shows "(\<exists>t. updatePosVerlet width height task s = Some t \<and>
              rows t = rows s \<and> cols t = cols s \<and>
              (\<forall>i j. i < rows s \<longrightarrow> j < cols s \<longrightarrow>
                 inBounds width height (positions t ! i ! j))) \<and>
         (\<forall>di dj ex ey. di < rows s \<longrightarrow> dj < cols s \<longrightarrow>
            (\<exists>t. drag width height di dj ex ey s = Some t \<and>
                 rows t = rows s \<and> cols t = cols s \<and>
                 inBounds width height (positions t ! di ! dj)))"
proof (intro conjI allI impI)
  from updatePosVerlet_cells [OF wf, of task width height]
  show "\<exists>t. updatePosVerlet width height task s = Some t \<and>
              rows t = rows s \<and> cols t = cols s \<and>
              (\<forall>i j. i < rows s \<longrightarrow> j < cols s \<longrightarrow>
                 inBounds width height (positions t ! i ! j))"
    using clampPoint_inBounds [OF w h] by fastforce
next
  fix di dj ex ey
  assume d: "di < rows s" "dj < cols s"
  from drag_in_range [OF wf d, of width height ex ey] obtain t where
    t: "drag width height di dj ex ey s = Some t" "rows t = rows s" "cols t = cols s"
       "positions t = setCell (positions s) di dj (clampPoint width height (ex, ey))"
    by blast
  have "positions t ! di ! dj = clampPoint width height (ex, ey)"
    unfolding t(4) by (rule nth_setCell_same [OF wellFormed_cells(1) [OF wf d]])
  with t(1-3) show "\<exists>t. drag width height di dj ex ey s = Some t \<and>
                 rows t = rows s \<and> cols t = cols s \<and>
                 inBounds width height (positions t ! di ! dj)"
    using clampPoint_inBounds [OF w h] by simp
qed

theorem verlet_and_drag_stay_in_bounds_witness:
  "(\<exists>t. updatePosVerlet 600 400 ''4'' taskFourGrid = Some t \<and>
        rows t = 3 \<and> cols t = 3 \<and>
        inBounds 600 400 (positions t ! 1 ! 1) \<and>
        inBounds 600 400 (positions t ! 2 ! 0)) \<and>
   (\<exists>t. drag 600 400 1 1 700 (- 20) taskFourGrid = Some t \<and>
        rows t = 3 \<and> cols t = 3 \<and>
        inBounds 600 400 (positions t ! 1 ! 1))"
proof -
  have "wellFormed taskFourGrid"
    by (rule wellFormed_taskFourGrid)
  moreover have "padding \<le> 600 - padding" and "padding \<le> 400 - padding"
    by (simp_all add: padding_def)
  ultimately have both:
    "(\<exists>t. updatePosVerlet 600 400 ''4'' taskFourGrid = Some t \<and>
          rows t = rows taskFourGrid \<and> cols t = cols taskFourGrid \<and>
          (\<forall>i j. i < rows taskFourGrid \<longrightarrow> j < cols taskFourGrid \<longrightarrow>
             inBounds 600 400 (positions t ! i ! j))) \<and>
     (\<forall>di dj ex ey. di < rows taskFourGrid \<longrightarrow> dj < cols taskFourGrid \<longrightarrow>
        (\<exists>t. drag 600 400 di dj ex ey taskFourGrid = Some t \<and>
             rows t = rows taskFourGrid \<and> cols t = cols taskFourGrid \<and>
             inBounds 600 400 (positions t ! di ! dj)))"
    by (rule verlet_and_drag_stay_in_bounds)
  have dims: "rows taskFourGrid = 3" "cols taskFourGrid = 3"
    by (simp_all add: taskFourGrid_def)
  from both obtain t where t: "updatePosVerlet 600 400 ''4'' taskFourGrid = Some t"
    "rows t = 3" "cols t = 3"
    "\<And>i j. i < 3 \<Longrightarrow> j < 3 \<Longrightarrow> inBounds 600 400 (positions t ! i ! j)"
    unfolding dims by blast
  from t(4) [of 1 1] t(4) [of 2 0]
  have "inBounds 600 400 (positions t ! 1 ! 1)" "inBounds 600 400 (positions t ! 2 ! 0)"
    by simp_all
  with t(1-3) have verlet: "\<exists>t. updatePosVerlet 600 400 ''4'' taskFourGrid = Some t \<and>
        rows t = 3 \<and> cols t = 3 \<and>
        inBounds 600 400 (positions t ! 1 ! 1) \<and>
        inBounds 600 400 (positions t ! 2 ! 0)"
    by blast
  from both have "\<exists>t. drag 600 400 1 1 700 (- 20) taskFourGrid = Some t \<and>
        rows t = 3 \<and> cols t = 3 \<and>
        inBounds 600 400 (positions t ! 1 ! 1)"
    unfolding dims by simp
  with verlet show ?thesis
    by blast
qed

text \<open>
  Claim C6 without that condition fails: on a canvas of width 60 the clamp
  \<^verbatim>\<open>Math.max(padding, Math.min(width - padding, x))\<close> returns \<open>padding = 50\<close>, which is
  above \<open>width - padding = 10\<close>.
\<close>

theorem verlet_narrow_canvas_counterexample:
  "initializeGrid 60 400 ''5'' 1 1 = Some narrowStart \<and>
   updatePosVerlet 60 400 ''5'' narrowStart = Some narrowNext \<and>
   positions narrowNext ! 0 ! 0 = (50, 120) \<and>
   \<not> fst (positions narrowNext ! 0 ! 0) \<le> 60 - padding \<and>
   \<not> inBounds 60 400 (positions narrowNext ! 0 ! 0)"
  by (simp add: initializeGrid_def updatePosVerlet_def calculateForces_def zeroForces_def
        structuralSprings_def shearSprings_def verletCell_def narrowStart_def narrowNext_def
        modifyCell_def cell_def rowAt_def elemAt_def setCell_def timeStep_def padding_def
        inBounds_def Let_def)

section \<open>Repeated Verlet steps\<close>

lemma verletNext_stationary: "verletNext p p (0, 0) = p"
  by (simp add: verletNext_def prod_eq_iff)

lemma verletSteps_stationary:
  assumes wf: "wellFormed s" and ij: "i < rows s" "j < cols s"
      and eq: "prevPositions s ! i ! j = positions s ! i ! j"
      and inb: "inBounds width height (positions s ! i ! j)"
      and zero: "\<forall>k<n. \<forall>u. verletSteps width height task (Suc k) s = Some u \<longrightarrow>
                   forces u ! i ! j = (0, 0)"
  shows "\<exists>t. verletSteps width height task n s = Some t \<and>
           wellFormed t \<and> rows t = rows s \<and> cols t = cols s \<and>
           positions t ! i ! j = positions s ! i ! j \<and>
           prevPositions t ! i ! j = positions s ! i ! j"
  using zero
proof (induction n)
  case 0
  show ?case
    using wf eq by simp
next
  case (Suc n)
  from Suc.prems have "\<forall>k<n. \<forall>u. verletSteps width height task (Suc k) s = Some u \<longrightarrow>
                   forces u ! i ! j = (0, 0)"
    using less_SucI by blast
  from Suc.IH [OF this] obtain t where
    t: "verletSteps width height task n s = Some t" "wellFormed t"
       "rows t = rows s" "cols t = cols s"
       "positions t ! i ! j = positions s ! i ! j"
       "prevPositions t ! i ! j = positions s ! i ! j"
    by blast
  from updatePosVerlet_cells [OF t(2), of task width height] obtain c u where
    u: "calculateForces task t = Some c" "updatePosVerlet width height task t = Some u"
       "wellFormed u" "rows u = rows t" "cols u = cols t" "forces u = forces c"
       "\<And>i j. i < rows t \<Longrightarrow> j < cols t \<Longrightarrow>
              positions u ! i ! j =
                clampPoint width height
                  (verletNext (positions t ! i ! j) (prevPositions t ! i ! j) (forces c ! i ! j)) \<and>
              prevPositions u ! i ! j = positions t ! i ! j \<and>
              velocities u ! i ! j =
                verletVelocity (positions t ! i ! j) (prevPositions t ! i ! j) (forces c ! i ! j)"
    by blast
  have run: "verletSteps width height task (Suc n) s = Some u"
    by (simp add: t(1) u(2))
  with Suc.prems have "forces u ! i ! j = (0, 0)"
    by blast
  then have a: "forces c ! i ! j = (0, 0)"
    by (simp add: u(6))
  from u(7) [of i j] ij t(3,4) have
    "positions u ! i ! j =
       clampPoint width height
         (verletNext (positions t ! i ! j) (prevPositions t ! i ! j) (forces c ! i ! j))"
    and p: "prevPositions u ! i ! j = positions t ! i ! j"
    by simp_all
  then have "positions u ! i ! j = positions s ! i ! j"
    by (simp add: a t(5,6) verletNext_stationary clampPoint_id [OF inb])
  with run u(3-5) t(3-5) p show ?case
    by simp
qed

text \<open>
  Claim C7. Take a mass point of a well-formed state whose position equals its previous
  position and lies in the padded rectangle. If the force accumulated for it is zero in
  each of \<open>n\<close> consecutive Verlet steps, then the \<open>n\<close> steps all succeed and leave its
  position and its previous position where they were.
\<close>

theorem verlet_zero_force_point_stays:
  assumes "wellFormed s" and "i < rows s" and "j < cols s"
      and "prevPositions s ! i ! j = positions s ! i ! j"
      and "inBounds width height (positions s ! i ! j)"
      and "\<forall>k<n. \<forall>u. verletSteps width height task (Suc k) s = Some u \<longrightarrow>
             forces u ! i ! j = (0, 0)"
  shows "\<exists>t. verletSteps width height task n s = Some t \<and>
           positions t ! i ! j = positions s ! i ! j \<and>
           prevPositions t ! i ! j = positions s ! i ! j"
  using verletSteps_stationary [OF assms] by blast

lemma updatePosVerlet_atRest: "updatePosVerlet 600 400 ''1'' atRest = Some atRest"
  by (simp add: updatePosVerlet_def calculateForces_def zeroForces_def structuralSprings_def
        applySpring_def verletCell_def atRest_def modifyCell_def cell_def rowAt_def
        elemAt_def setCell_def timeStep_def padding_def structuralRestLength_def
        structuralK_def structuralDamping_def mass_def sqrt_2500 Let_def eval_nat_numeral)

lemma verletSteps_atRest: "verletSteps 600 400 ''1'' n atRest = Some atRest"
  by (induction n) (simp_all add: updatePosVerlet_atRest)

theorem verlet_zero_force_point_stays_witness:
  "\<exists>t. verletSteps 600 400 ''1'' 3 atRest = Some t \<and>
     positions t ! 0 ! 1 = (150, 200) \<and>
     prevPositions t ! 0 ! 1 = (150, 200)"
proof -
  have "wellFormed atRest"
    by (simp add: wellFormed_def gridShape_def atRest_def)
  moreover have "0 < rows atRest" and "1 < cols atRest"
    by (simp_all add: atRest_def)
  moreover have "prevPositions atRest ! 0 ! 1 = positions atRest ! 0 ! 1"
    by (simp add: atRest_def)
  moreover have "inBounds 600 400 (positions atRest ! 0 ! 1)"
    by (simp add: atRest_def inBounds_def padding_def)
  moreover have "\<forall>k<3. \<forall>u. verletSteps 600 400 ''1'' (Suc k) atRest = Some u \<longrightarrow>
             forces u ! 0 ! 1 = (0, 0)"
  proof (intro allI impI)
    fix k u
    assume "verletSteps 600 400 ''1'' (Suc k) atRest = Some u"
    then have "u = atRest"
      unfolding verletSteps_atRest by simp
    then show "forces u ! 0 ! 1 = (0, 0)"
      by (simp add: atRest_def)
  qed
  ultimately have "\<exists>t. verletSteps 600 400 ''1'' 3 atRest = Some t \<and>
           positions t ! 0 ! 1 = positions atRest ! 0 ! 1 \<and>
           prevPositions t ! 0 ! 1 = positions atRest ! 0 ! 1"
    by (rule verlet_zero_force_point_stays)
  then show ?thesis
    by (simp add: atRest_def)
qed

section \<open>initializeGrid\<close>

lemma gridShape_modifyCell:
  "modifyCell g i j h = Some g' \<Longrightarrow> gridShape r c g \<Longrightarrow> gridShape r c g'"
  by (auto simp: modifyCell_def gridShape_setCell split: Option.bind_splits)

lemma gridShape_lattice: "gridShape r c (map (\<lambda>i. map (f i) [0..<c]) [0..<r])"
  by (simp add: gridShape_def list_all_iff)

lemma gridShape_maybe_modify:
  "(if b then modifyCell g i j h else Some g) = Some g' \<Longrightarrow> gridShape r c g \<Longrightarrow> gridShape r c g'"
  by (auto dest: gridShape_modifyCell split: if_splits)

lemma disturbances_keep_shape:
  assumes "do {
             p1 \<leftarrow> (if b1 then modifyCell p0 i1 j1 h1 else Some p0);
             p2 \<leftarrow> (if b2 then modifyCell p1 i2 j2 h2 else Some p1);
             p3 \<leftarrow> (if b3 then modifyCell p2 i3 j3 h3 else Some p2);
             p4 \<leftarrow> (if b4 then modifyCell p3 i4 j4 h4 else Some p3);
             p5 \<leftarrow> (if b5 then modifyCell p4 i5 j5 h5 else Some p4);
             Some (F p5)
           } = Some s"
      and "gridShape r c p0"
  shows "\<exists>p5. gridShape r c p5 \<and> s = F p5"
proof -
  from assms(1) obtain p1 p2 p3 p4 p5 where
    "(if b1 then modifyCell p0 i1 j1 h1 else Some p0) = Some p1"
    "(if b2 then modifyCell p1 i2 j2 h2 else Some p1) = Some p2"
    "(if b3 then modifyCell p2 i3 j3 h3 else Some p2) = Some p3"
    "(if b4 then modifyCell p3 i4 j4 h4 else Some p3) = Some p4"
    "(if b5 then modifyCell p4 i5 j5 h5 else Some p4) = Some p5"
    "s = F p5"
    by (auto simp: bind_eq_Some_conv)
  with assms(2) show ?thesis
    by (blast dest: gridShape_maybe_modify)
qed

lemma initializeGrid_wellFormed:
  assumes "initializeGrid width height task rows0 cols0 = Some s"
  shows "wellFormed s"
proof -
  note shape = disturbances_keep_shape
    [OF assms [unfolded initializeGrid_def Let_def] gridShape_lattice]
  then show ?thesis
    by (auto simp: wellFormed_def gridShape_lattice)
qed

text \<open>
  Every point that the disturbance of the task does not move has its previous position
  equal to its position.
\<close>

lemma modifyCell_other:
  "modifyCell g i j h = Some g' \<Longrightarrow> (i', j') \<noteq> (i, j) \<Longrightarrow> g' ! i' ! j' = g ! i' ! j'"
  by (auto simp: modifyCell_def nth_setCell_other split: Option.bind_splits)

lemma maybe_modify_other:
  assumes "(if b then modifyCell g i j h else Some g) = Some g'"
      and "b \<Longrightarrow> (i', j') \<noteq> (i, j)"
  shows "g' ! i' ! j' = g ! i' ! j'"
  using assms by (auto dest: modifyCell_other split: if_splits)

lemma disturbances_keep_other_cells:
  assumes "do {
             p1 \<leftarrow> (if b1 then modifyCell p0 i1 j1 h1 else Some p0);
             p2 \<leftarrow> (if b2 then modifyCell p1 i2 j2 h2 else Some p1);
             p3 \<leftarrow> (if b3 then modifyCell p2 i3 j3 h3 else Some p2);
             p4 \<leftarrow> (if b4 then modifyCell p3 i4 j4 h4 else Some p3);
             p5 \<leftarrow> (if b5 then modifyCell p4 i5 j5 h5 else Some p4);
             Some (F p5)
           } = Some s"
      and "b1 \<Longrightarrow> (i, j) \<noteq> (i1, j1)" and "b2 \<Longrightarrow> (i, j) \<noteq> (i2, j2)"
      and "b3 \<Longrightarrow> (i, j) \<noteq> (i3, j3)" and "b4 \<Longrightarrow> (i, j) \<noteq> (i4, j4)"
      and "b5 \<Longrightarrow> (i, j) \<noteq> (i5, j5)"
  shows "\<exists>p5. p5 ! i ! j = p0 ! i ! j \<and> s = F p5"
proof -
  from assms(1) obtain p1 p2 p3 p4 p5 where
    p: "(if b1 then modifyCell p0 i1 j1 h1 else Some p0) = Some p1"
       "(if b2 then modifyCell p1 i2 j2 h2 else Some p1) = Some p2"
       "(if b3 then modifyCell p2 i3 j3 h3 else Some p2) = Some p3"
       "(if b4 then modifyCell p3 i4 j4 h4 else Some p3) = Some p4"
       "(if b5 then modifyCell p4 i5 j5 h5 else Some p4) = Some p5"
       "s = F p5"
    by (auto simp: bind_eq_Some_conv)
  have "p5 ! i ! j = p4 ! i ! j" by (rule maybe_modify_other [OF p(5) assms(6)])
  also have "\<dots> = p3 ! i ! j" by (rule maybe_modify_other [OF p(4) assms(5)])
  also have "\<dots> = p2 ! i ! j" by (rule maybe_modify_other [OF p(3) assms(4)])
  also have "\<dots> = p1 ! i ! j" by (rule maybe_modify_other [OF p(2) assms(3)])
  also have "\<dots> = p0 ! i ! j" by (rule maybe_modify_other [OF p(1) assms(2)])
  finally show ?thesis
    using p(6) by blast
qed

lemma initializeGrid_undisturbed_points:
  assumes init: "initializeGrid width height task rows0 cols0 = Some s"
      and "task = ''1'' \<or> task = ''2'' \<or> task = ''3'' \<Longrightarrow> (i, j) \<noteq> (0, 1)"
      and "task = ''4'' \<Longrightarrow> (i, j) \<noteq> (1, 1)"
      and "task = ''5'' \<Longrightarrow> (i, j) \<noteq> (0, cols0 div 2)"
  shows "positions s ! i ! j = prevPositions s ! i ! j"
proof -
  have c5: "task = ''5'' \<Longrightarrow> (i, j) \<noteq> (0,
      (if task = ''1'' then 2 else if task = ''2'' then 2
       else if task = ''3'' then 2 else if task = ''4'' then 3 else cols0) div 2)"
    using assms(4) by simp
  have c123: "task = ''1'' \<Longrightarrow> (i, j) \<noteq> (0, 1)" "task = ''2'' \<Longrightarrow> (i, j) \<noteq> (0, 1)"
    "task = ''3'' \<Longrightarrow> (i, j) \<noteq> (0, 1)"
    using assms(2) by simp_all
  note cells = disturbances_keep_other_cells
    [OF init [unfolded initializeGrid_def Let_def] c123 assms(3) c5]
  then show ?thesis
    by auto
qed

text \<open>
  Claim C2 says that after \<^verbatim>\<open>initializeGrid\<close> every previous position equals the
  position, at the disturbed points too. At task 1 it does not: \<^verbatim>\<open>initializeGrid\<close> copies
  \<^verbatim>\<open>positions\<close> into \<^verbatim>\<open>prevPositions\<close> before it applies the disturbance of the task, so
  the disturbed point keeps its lattice position \<open>(550, 200)\<close> as previous position while
  its position is \<open>(570, 200)\<close>.
\<close>

theorem initializeGrid_task1_previous_position_stale:
  "initializeGrid 600 400 ''1'' 1 2 = Some taskOneGrid \<and>
   positions taskOneGrid ! 0 ! 1 = (570, 200) \<and>
   prevPositions taskOneGrid ! 0 ! 1 = (550, 200) \<and>
   positions taskOneGrid ! 0 ! 1 \<noteq> prevPositions taskOneGrid ! 0 ! 1"
  by (simp add: initializeGrid_def taskOneGrid_def padding_def modifyCell_def rowAt_def
        elemAt_def setCell_def Let_def eval_nat_numeral)

end
